theory Spec2Isabelle
  imports Complex_Main "HOL-Library.Word"
begin

unbundle bit_operations_syntax

section \<open>Byte buffers and the fixed-width view\<close>

text \<open>
  The loaders read their input through a \<open>DataView\<close> over the bytes of a buffer. A
  view is the bytes together with the offset at which the view starts. The loaders never
  pass the optional third constructor argument, so the view's \<open>byteLength\<close> is the
  number of bytes, and the bounds check compares the absolute end of a read with it.
  The reads below are written the way the source's own implementation of the view
  (installed when the host has none) computes them on a buffer whose elements are byte
  values; there they are the reads of the host's view. What that implementation does on
  each kind of buffer it can be given is the subject of a later section. A read of one
  byte is a natural number; a read of two or four bytes goes through the 32-bit operators
  of the host and is an integer.
\<close>

type_synonym byte = "8 word"

datatype error = OutOfBounds | TypeError

record DataView =
  buffer :: "byte list"
  byteOffset :: nat

definition byteLength :: "DataView \<Rightarrow> nat" where
  "byteLength dv = length (buffer dv)"

definition slice :: "'a list \<Rightarrow> nat \<Rightarrow> nat \<Rightarrow> 'a list" where
  "slice xs start end = take (end - start) (drop start xs)"

definition getBytes :: "DataView \<Rightarrow> nat \<Rightarrow> nat \<Rightarrow> bool \<Rightarrow> error + byte list" where
  "getBytes dv len off littleEndian =
     (let byteOffset = DataView.byteOffset dv + off in
      if byteOffset + len > byteLength dv then Inl OutOfBounds
      else let result = slice (buffer dv) byteOffset (byteOffset + len) in
        Inr (if \<not> littleEndian \<and> len > 1 then rev result else result))"

definition getUint8 :: "DataView \<Rightarrow> nat \<Rightarrow> error + nat" where
  "getUint8 dv off =
     (case getBytes dv 1 off False of Inl e \<Rightarrow> Inl e | Inr b \<Rightarrow> Inr (unat (b ! 0)))"

definition getUint16 :: "DataView \<Rightarrow> nat \<Rightarrow> bool \<Rightarrow> error + int" where
  "getUint16 dv off littleEndian =
     (case getBytes dv 2 off littleEndian of
        Inl e \<Rightarrow> Inl e
      | Inr b \<Rightarrow> Inr (sint (push_bit 8 (ucast (b ! 1)) OR ucast (b ! 0) :: 32 word)))"

definition getInt32 :: "DataView \<Rightarrow> nat \<Rightarrow> bool \<Rightarrow> error + 32 word" where
  "getInt32 dv off littleEndian =
     (case getBytes dv 4 off littleEndian of
        Inl e \<Rightarrow> Inl e
      | Inr b \<Rightarrow> Inr (push_bit 24 (ucast (b ! 3)) OR push_bit 16 (ucast (b ! 2))
                      OR push_bit 8 (ucast (b ! 1)) OR ucast (b ! 0)))"

text \<open>\<open>getUint32\<close> is \<open>getInt32(...) >>> 0\<close>: the same 32 bits read as unsigned.\<close>

definition getUint32 :: "DataView \<Rightarrow> nat \<Rightarrow> bool \<Rightarrow> error + int" where
  "getUint32 dv off littleEndian =
     (case getInt32 dv off littleEndian of Inl e \<Rightarrow> Inl e | Inr w \<Rightarrow> Inr (uint w))"

section \<open>STL: detection of the binary encoding\<close>

text \<open>
  The byte scan of \<open>isBinary\<close>: the first byte above 127 answers \<open>true\<close>, the end of
  the buffer answers \<open>false\<close>.
\<close>

function isBinary_scan :: "DataView \<Rightarrow> nat \<Rightarrow> nat \<Rightarrow> error + bool" where
  "isBinary_scan reader fileLength index =
     (if index < fileLength then
        (case getUint8 reader index of
           Inl e \<Rightarrow> Inl e
         | Inr v \<Rightarrow> if v > 127 then Inr True
                    else isBinary_scan reader fileLength (index + 1))
      else Inr False)"
  by pat_completeness auto
termination
  by (relation "measure (\<lambda>(reader, fileLength, index). fileLength - index)") auto

declare isBinary_scan.simps [simp del]

definition isBinary :: "byte list \<Rightarrow> error + bool" where
  "isBinary binData =
     (let reader = \<lparr>buffer = binData, byteOffset = 0\<rparr>;
          face_size = (32 div 8 * 3) + ((32 div 8 * 3) * 3) + (16 div 8)
      in case getUint32 reader 80 True of
           Inl e \<Rightarrow> Inl e
         | Inr n_faces \<Rightarrow>
             let expect = 80 + (32 div 8) + (n_faces * face_size)
             in if expect = int (byteLength reader) then Inr True
                else isBinary_scan reader (byteLength reader) 0)"

text \<open>
  The unsigned little-endian value of four bytes, as arithmetic: the reading of
  "the little-endian 32-bit unsigned integer" that the statements below use.
\<close>

definition le32 :: "byte \<Rightarrow> byte \<Rightarrow> byte \<Rightarrow> byte \<Rightarrow> nat" where
  "le32 b0 b1 b2 b3 = unat b0 + 256 * unat b1 + 65536 * unat b2 + 16777216 * unat b3"

text \<open>The triangle count that the detection reads: the four bytes at offset 80.\<close>

definition triangleCount :: "byte list \<Rightarrow> nat" where
  "triangleCount buf = le32 (buf ! 80) (buf ! 81) (buf ! 82) (buf ! 83)"

section \<open>Numbers of the host language\<close>

text \<open>
  A number of the host is an IEEE 754 double: a finite number is kept as the exact
  rational it denotes, next to \<open>NaN\<close> and the two infinities; the two zeros are one
  value. \<open>Math.pow(2, e)\<close> is \<open>pow2 e\<close>.
\<close>

datatype jsnum = Num rat | NaN | PosInfinity | NegInfinity

definition pow2 :: "int \<Rightarrow> rat" where
  "pow2 e = (if 0 \<le> e then 2 ^ nat e else 1 / 2 ^ nat (- e))"

text \<open>
  Rounding. The result of an arithmetic operation, and the number a decimal literal
  denotes, is the exact value rounded to the nearest double, a tie going to the even
  significand; a \<open>Float32Array\<close> holds the nearest single-precision number in the same
  way. \<open>bit_length\<close> counts the binary digits of a positive integer, \<open>floor_log2\<close> is
  the exponent of the leading bit of a positive rational. \<open>round_to p emin emax\<close> rounds
  to the format with \<open>p\<close> significant bits and exponents from \<open>emin\<close> to \<open>emax\<close>:
  the significand \<open>m\<close> counts units of the spacing \<open>ulp\<close> at the exponent \<open>e\<close> of
  the value; below \<open>2^emin\<close> the spacing stays that of the subnormal numbers, and a
  result that reaches \<open>2^(emax + 1)\<close> (an exponent above \<open>emax\<close>, or the significand
  \<open>2^p\<close> at \<open>emax\<close>) is an infinity.
\<close>

function bit_length :: "int \<Rightarrow> int" where
  "bit_length n = (if 0 < n then bit_length (n div 2) + 1 else 0)"
  by pat_completeness auto
termination
  by (relation "measure nat") auto

declare bit_length.simps [simp del]

definition floor_log2 :: "rat \<Rightarrow> int" where
  "floor_log2 a =
     (case quotient_of a of (n, d) \<Rightarrow>
        (let k = bit_length n - bit_length d in if pow2 k \<le> a then k else k - 1))"

definition round_half_even :: "rat \<Rightarrow> int" where
  "round_half_even x =
     (let f = \<lfloor>x\<rfloor>; d = x - of_int f in
      if d < 1 / 2 then f else if 1 / 2 < d then f + 1 else if even f then f else f + 1)"

definition round_to :: "int \<Rightarrow> int \<Rightarrow> int \<Rightarrow> rat \<Rightarrow> jsnum" where
  "round_to p emin emax x =
     (if x = 0 then Num 0
      else
        (let a = \<bar>x\<bar>;
             e = max (floor_log2 a) emin;
             ulp = pow2 (e - (p - 1));
             m = round_half_even (a / ulp);
             r = of_int m * ulp
         in if emax < e \<or> (e = emax \<and> 2 ^ nat p \<le> m)
            then (if 0 < x then PosInfinity else NegInfinity)
            else Num (if 0 < x then r else - r)))"

definition double :: "rat \<Rightarrow> jsnum" where
  "double x = round_to 53 (- 1022) 1023 x"

definition fround :: "rat \<Rightarrow> jsnum" where
  "fround x = round_to 24 (- 126) 127 x"

section \<open>PLY: values, records and the mesh\<close>

text \<open>
  A decoded value is a number, a list, or \<open>undefined\<close> (what
  \<open>parseASCIINumber\<close> returns for a type name outside its \<open>switch\<close>).
\<close>

datatype jsval = Undefined | Number jsnum | Array "jsval list"

text \<open>
  A record is the object built by \<open>parseASCIIElement\<close>: a finite map from property
  names to values. \<open>hasProp\<close> is the \<open>in\<close> operator, \<open>getProp\<close> is property access, which
  answers \<open>undefined\<close> for a missing key.
\<close>

type_synonym element = "string \<rightharpoonup> jsval"

definition hasProp :: "element \<Rightarrow> string \<Rightarrow> bool" where
  "hasProp e k = (e k \<noteq> None)"

definition getProp :: "element \<Rightarrow> string \<Rightarrow> jsval" where
  "getProp e k = (case e k of None \<Rightarrow> Undefined | Some v \<Rightarrow> v)"

text \<open>
  Conversion of a value to a number, as the division \<open>element.red / 255.0\<close> applies
  it: \<open>undefined\<close> is \<open>NaN\<close>; a list goes through its string form, so the empty
  list is 0, a one-element list is its element, a longer one is \<open>NaN\<close>.
\<close>

fun ToNumber :: "jsval \<Rightarrow> jsnum" where
  "ToNumber Undefined = NaN"
| "ToNumber (Number n) = n"
| "ToNumber (Array []) = Num 0"
| "ToNumber (Array [Undefined]) = Num 0"
| "ToNumber (Array [v]) = ToNumber v"
| "ToNumber (Array (v # w # vs)) = NaN"

text \<open>Division by a positive constant: the quotient is rounded to a double.\<close>

fun js_div :: "jsnum \<Rightarrow> rat \<Rightarrow> jsnum" where
  "js_div (Num r) d = double (r / d)"
| "js_div NaN d = NaN"
| "js_div PosInfinity d = PosInfinity"
| "js_div NegInfinity d = NegInfinity"

text \<open>
  The mesh under construction. The constructors \<open>Vector3\<close>, \<open>Color\<close> (after
  \<open>setRGB\<close>) and \<open>Face3\<close> belong to the rendering library; each is kept as the
  tuple of arguments the loader passes. A new face has no vertex colors.
\<close>

datatype Vector3 = Vector3 jsval jsval jsval

datatype Color = Color jsnum jsnum jsnum

datatype Face3 = Face3 (face_a: jsval) (face_b: jsval) (face_c: jsval)
                       (vertexColors: "Color option list")

record Geometry =
  vertices :: "Vector3 list"
  colors :: "Color list"
  faces :: "Face3 list"
  useColor :: bool
  elementsNeedUpdate :: bool

definition new_Geometry :: Geometry where
  "new_Geometry = \<lparr>vertices = [], colors = [], faces = [], useColor = False,
                    elementsNeedUpdate = False\<rparr>"

section \<open>PLY: the mesh assembler\<close>

text \<open>
  \<open>handleElement\<close>. The element name is a header token, or \<open>undefined\<close>
  (\<open>None\<close>) when the \<open>element\<close> line had none. For a face, \<open>element.vertex_indices.length\<close> raises a
  \<open>TypeError\<close> when the record has no such property; a number has no \<open>length\<close>,
  so neither comparison holds and nothing is appended.
\<close>

definition handleElement :: "Geometry \<Rightarrow> string option \<Rightarrow> element \<Rightarrow> error + Geometry" where
  "handleElement geometry elementName element =
     (if elementName = Some ''vertex'' then
        (let g = geometry\<lparr>vertices := vertices geometry @
                   [Vector3 (getProp element ''x'') (getProp element ''y'') (getProp element ''z'')]\<rparr>
         in if hasProp element ''red'' \<and> hasProp element ''green'' \<and> hasProp element ''blue'' then
              Inr (g\<lparr>useColor := True,
                     colors := colors g @
                       [Color (js_div (ToNumber (getProp element ''red'')) 255)
                              (js_div (ToNumber (getProp element ''green'')) 255)
                              (js_div (ToNumber (getProp element ''blue'')) 255)]\<rparr>)
            else Inr g)
      else if elementName = Some ''face'' then
        (case getProp element ''vertex_indices'' of
           Undefined \<Rightarrow> Inl TypeError
         | Number n \<Rightarrow> Inr geometry
         | Array vertex_indices \<Rightarrow>
             if length vertex_indices = 3 then
               Inr (geometry\<lparr>faces := faces geometry @
                      [Face3 (vertex_indices ! 0) (vertex_indices ! 1) (vertex_indices ! 2) []]\<rparr>)
             else if length vertex_indices = 4 then
               Inr (geometry\<lparr>faces := faces geometry @
                      [Face3 (vertex_indices ! 0) (vertex_indices ! 1) (vertex_indices ! 3) [],
                       Face3 (vertex_indices ! 1) (vertex_indices ! 2) (vertex_indices ! 3) []]\<rparr>)
             else Inr geometry)
      else Inr geometry)"

text \<open>
  Both body decoders hand each record to \<open>handleElement\<close> as soon as it is decoded;
  \<open>handleElements\<close> is that sequence of calls, stopping at the first exception.
\<close>

fun handleElements :: "Geometry \<Rightarrow> (string option \<times> element) list \<Rightarrow> error + Geometry" where
  "handleElements geometry [] = Inr geometry"
| "handleElements geometry ((elementName, element) # rs) =
     (case handleElement geometry elementName element of
        Inl e \<Rightarrow> Inl e
      | Inr g \<Rightarrow> handleElements g rs)"

text \<open>Whether a record carries the three color channels, and the color it then adds.\<close>

definition hasRGB :: "element \<Rightarrow> bool" where
  "hasRGB element = (hasProp element ''red'' \<and> hasProp element ''green'' \<and> hasProp element ''blue'')"

definition colorOf :: "element \<Rightarrow> Color" where
  "colorOf element = Color (js_div (ToNumber (getProp element ''red'')) 255)
                           (js_div (ToNumber (getProp element ''green'')) 255)
                           (js_div (ToNumber (getProp element ''blue'')) 255)"

text \<open>
  \<open>postProcess\<close>. \<open>geometry.colors[i]\<close> is a color when \<open>i\<close> is an index of the
  array and \<open>undefined\<close> otherwise. The bounding sphere is the rendering library's.
\<close>

definition colorAt :: "Color list \<Rightarrow> jsval \<Rightarrow> Color option" where
  "colorAt cs v =
     (case v of
        Number (Num r) \<Rightarrow>
          if 0 \<le> r \<and> r = of_int \<lfloor>r\<rfloor> \<and> nat \<lfloor>r\<rfloor> < length cs then Some (cs ! nat \<lfloor>r\<rfloor>) else None
      | _ \<Rightarrow> None)"

definition postProcess :: "Geometry \<Rightarrow> Geometry" where
  "postProcess geometry =
     (if useColor geometry then
        geometry\<lparr>faces := map (\<lambda>f. Face3 (face_a f) (face_b f) (face_c f)
                               [colorAt (colors geometry) (face_a f),
                                colorAt (colors geometry) (face_b f),
                                colorAt (colors geometry) (face_c f)]) (faces geometry),
                 elementsNeedUpdate := True\<rparr>
      else geometry)"

section \<open>PLY: strings of the host language\<close>

text \<open>
  The loader turns the bytes of a file into a string of one character per byte
  (\<open>bin2str\<close>), so a character is a byte. On those, the whitespace class \<open>\s\<close> of a
  regular expression and the characters removed by \<open>trim\<close> are the same seven.
\<close>

definition isSpace :: "char \<Rightarrow> bool" where
  "isSpace c = (of_char c \<in> {9, 10, 11, 12, 13, 32, 160 :: nat})"

definition trim :: "string \<Rightarrow> string" where
  "trim s = rev (dropWhile isSpace (rev (dropWhile isSpace s)))"

text \<open>
  \<open>s.split('\n')\<close>: the pieces between line feeds; the result is never empty, and the
  first piece of the result for \<open>c # cs\<close> is the one \<open>c\<close> belongs to.
\<close>

fun split_lines :: "string \<Rightarrow> string list" where
  "split_lines [] = ['''']"
| "split_lines (c # cs) =
     (if c = CHR 0x0A then [] # split_lines cs
      else (case split_lines cs of [] \<Rightarrow> [c # ''''] | l # ls \<Rightarrow> (c # l) # ls))"

text \<open>
  \<open>s.split(/\s+/)\<close>: the pieces between maximal runs of whitespace, with an empty
  piece before a leading run and after a trailing one. The flag tells whether the
  previous character was whitespace, that is, whether a run is being skipped.
\<close>

fun split_ws_from :: "bool \<Rightarrow> string \<Rightarrow> string list" where
  "split_ws_from gap [] = ['''']"
| "split_ws_from gap (c # cs) =
     (if isSpace c then
        (if gap then split_ws_from True cs else [] # split_ws_from True cs)
      else (case split_ws_from False cs of [] \<Rightarrow> [c # ''''] | t # ts \<Rightarrow> (c # t) # ts))"

definition split_ws :: "string \<Rightarrow> string list" where
  "split_ws s = split_ws_from False s"

text \<open>\<open>xs.join(sep)\<close>, \<open>xs[i]\<close> on an array of strings, and \<open>xs.shift()\<close>.\<close>

fun join :: "string \<Rightarrow> string list \<Rightarrow> string" where
  "join sep [] = []"
| "join sep [x] = x"
| "join sep (x # y # xs) = x @ sep @ join sep (y # xs)"

definition item :: "'a list \<Rightarrow> nat \<Rightarrow> 'a option" where
  "item xs i = (if i < length xs then Some (xs ! i) else None)"

definition shift :: "'a list \<Rightarrow> 'a option \<times> 'a list" where
  "shift xs = (case xs of [] \<Rightarrow> (None, []) | x # rest \<Rightarrow> (Some x, rest))"

text \<open>A missing string used as a property key is the key \<open>undefined\<close>.\<close>

definition key :: "string option \<Rightarrow> string" where
  "key k = (case k of None \<Rightarrow> ''undefined'' | Some s \<Rightarrow> s)"

subsection \<open>The two patterns of the loader\<close>

text \<open>
  The first and the last position at which a suffix of the string satisfies a predicate.
\<close>

fun find_first :: "(string \<Rightarrow> bool) \<Rightarrow> string \<Rightarrow> nat option" where
  "find_first P [] = (if P [] then Some 0 else None)"
| "find_first P (c # cs) =
     (if P (c # cs) then Some 0 else map_option Suc (find_first P cs))"

fun find_last :: "(string \<Rightarrow> bool) \<Rightarrow> string \<Rightarrow> nat option" where
  "find_last P [] = (if P [] then Some 0 else None)"
| "find_last P (c # cs) =
     (case find_last P cs of
        Some j \<Rightarrow> Some (Suc j)
      | None \<Rightarrow> if P (c # cs) then Some 0 else None)"

definition starts_with :: "string \<Rightarrow> string \<Rightarrow> bool" where
  "starts_with p s = (take (length p) s = p)"

text \<open>The text \<open>end_header\<close> followed by one whitespace character.\<close>

definition at_end_header :: "string \<Rightarrow> bool" where
  "at_end_header s =
     (starts_with ''end_header'' s \<and> (case drop 10 s of [] \<Rightarrow> False | c # cs \<Rightarrow> isSpace c))"

text \<open>
  \<open>/ply([\s\S]*)end_header\s/\<close>: the match starts at the first \<open>ply\<close>; the group is
  greedy, so it ends at the last \<open>end_header\<close> that a whitespace character follows.
  The result is the whole match and the group.
\<close>

definition patternHeader_exec :: "string \<Rightarrow> (string \<times> string) option" where
  "patternHeader_exec data =
     (case find_first (starts_with ''ply'') data of
        None \<Rightarrow> None
      | Some i \<Rightarrow>
          (case find_last at_end_header (drop (i + 3) data) of
             None \<Rightarrow> None
           | Some j \<Rightarrow> Some (take (3 + j + 11) (drop i data), take j (drop (i + 3) data))))"

text \<open>
  \<open>/end_header\s([\s\S]*)$/\<close>: the match starts at the first \<open>end_header\<close> that a
  whitespace character follows; the group is the rest of the input.
\<close>

definition patternBody_exec :: "string \<Rightarrow> string option" where
  "patternBody_exec data =
     (case find_first at_end_header data of
        None \<Rightarrow> None
      | Some j \<Rightarrow> Some (drop (j + 11) data))"

subsection \<open>Reading numbers\<close>

text \<open>
  \<open>parseInt\<close> and \<open>parseFloat\<close> of the host, on a string or on \<open>undefined\<close>
  (whose string form has no digits: \<open>NaN\<close>). They skip leading whitespace, read the
  longest prefix that is a number and ignore the rest. The value is the double nearest
  to the one the digits denote.
\<close>

definition isDigit :: "char \<Rightarrow> bool" where
  "isDigit c = (48 \<le> (of_char c :: nat) \<and> (of_char c :: nat) \<le> 57)"

definition isHexDigit :: "char \<Rightarrow> bool" where
  "isHexDigit c = (isDigit c \<or> (97 \<le> (of_char c :: nat) \<and> (of_char c :: nat) \<le> 102)
                     \<or> (65 \<le> (of_char c :: nat) \<and> (of_char c :: nat) \<le> 70))"

definition digitVal :: "char \<Rightarrow> nat" where
  "digitVal c = (let n = of_char c in
                 if n \<le> 57 then n - 48 else if n \<le> 70 then n - 55 else n - 87)"

definition digitsVal :: "int \<Rightarrow> string \<Rightarrow> int" where
  "digitsVal radix ds = foldl (\<lambda>acc c. acc * radix + int (digitVal c)) 0 ds"

definition takeSign :: "string \<Rightarrow> bool \<times> string" where
  "takeSign s =
     (case s of
        [] \<Rightarrow> (False, [])
      | c # cs \<Rightarrow> if c = CHR ''-'' then (True, cs)
                  else if c = CHR ''+'' then (False, cs) else (False, s))"

definition parseInt :: "string option \<Rightarrow> jsnum" where
  "parseInt v =
     (case v of
        None \<Rightarrow> NaN
      | Some string \<Rightarrow>
          (let (neg, s) = takeSign (dropWhile isSpace string);
               hex = (starts_with ''0x'' s \<or> starts_with ''0X'' s);
               z = (if hex then takeWhile isHexDigit (drop 2 s) else takeWhile isDigit s);
               mathInt = rat_of_int (digitsVal (if hex then 16 else 10) z)
           in if z = [] then NaN else double (if neg then - mathInt else mathInt)))"

text \<open>
  The exponent part of a decimal literal: \<open>e\<close> or \<open>E\<close>, an optional sign and at
  least one digit; without a digit there is no exponent part.
\<close>

definition exponentPart :: "string \<Rightarrow> int" where
  "exponentPart s =
     (case s of
        [] \<Rightarrow> 0
      | c # cs \<Rightarrow>
          if c = CHR ''e'' \<or> c = CHR ''E'' then
            (let (neg, r) = takeSign cs; ds = takeWhile isDigit r
             in if ds = [] then 0
                else if neg then - digitsVal 10 ds else digitsVal 10 ds)
          else 0)"

definition pow10 :: "int \<Rightarrow> rat" where
  "pow10 e = (if 0 \<le> e then 10 ^ nat e else 1 / 10 ^ nat (- e))"

definition parseFloat :: "string option \<Rightarrow> jsnum" where
  "parseFloat v =
     (case v of
        None \<Rightarrow> NaN
      | Some string \<Rightarrow>
          (let (neg, s) = takeSign (dropWhile isSpace string) in
           if starts_with ''Infinity'' s then (if neg then NegInfinity else PosInfinity)
           else
             (let ip = takeWhile isDigit s;
                  r1 = dropWhile isDigit s;
                  dot = (r1 \<noteq> [] \<and> hd r1 = CHR ''.'');
                  fp = (if dot then takeWhile isDigit (tl r1) else []);
                  r2 = (if dot then dropWhile isDigit (tl r1) else r1);
                  m = rat_of_int (digitsVal 10 (ip @ fp)) * pow10 (exponentPart r2 - int (length fp))
              in if ip = [] \<and> fp = [] then NaN
                 else double (if neg then - m else m))))"

section \<open>PLY: the header\<close>

text \<open>
  A property keeps the tokens of its line: its type, its name (after the name mapping),
  and for a list the types of the count and of the items. A token the line did not have
  is \<open>undefined\<close> (\<open>None\<close>). The count of an element is \<open>parseInt\<close> of its token.
\<close>

record Property =
  ptype :: "string option"
  pname :: "string option"
  countType :: "string option"
  itemType :: "string option"

record Element =
  name :: "string option"
  count :: jsnum
  properties :: "Property list"

record Header =
  comments :: "string list"
  elements :: "Element list"
  headerLength :: nat
  format :: "string option"
  version :: "string option"

definition make_ply_element_property :: "string list \<Rightarrow> (string \<rightharpoonup> string) \<Rightarrow> Property" where
  "make_ply_element_property propertValues propertyNameMapping =
     (let property =
        (if item propertValues 0 = Some ''list'' then
           \<lparr>ptype = item propertValues 0, pname = item propertValues 3,
            countType = item propertValues 1, itemType = item propertValues 2\<rparr>
         else
           \<lparr>ptype = item propertValues 0, pname = item propertValues 1,
            countType = None, itemType = None\<rparr>)
      in case propertyNameMapping (key (pname property)) of
           Some mapped \<Rightarrow> property\<lparr>pname := Some mapped\<rparr>
         | None \<Rightarrow> property)"

text \<open>
  The loop of \<open>parseHeader\<close> over the lines, on the header built so far and the element
  under construction. A \<open>property\<close> line before any \<open>element\<close> line reads
  \<open>properties\<close> of \<open>undefined\<close>: a \<open>TypeError\<close>. An unknown directive is logged.
\<close>

fun parseHeader_lines ::
  "(string \<rightharpoonup> string) \<Rightarrow> string list \<Rightarrow> Header \<Rightarrow> Element option
     \<Rightarrow> error + (Header \<times> Element option)" where
  "parseHeader_lines propertyNameMapping [] header currentElement = Inr (header, currentElement)"
| "parseHeader_lines propertyNameMapping (l # lines) header currentElement =
     (let line = trim l in
      if line = [] then parseHeader_lines propertyNameMapping lines header currentElement
      else
        (let (lineType, lineValues) = shift (split_ws line);
             line = join '' '' lineValues
         in if lineType = Some ''format'' then
              parseHeader_lines propertyNameMapping lines
                (header\<lparr>format := item lineValues 0, version := item lineValues 1\<rparr>) currentElement
            else if lineType = Some ''comment'' then
              parseHeader_lines propertyNameMapping lines
                (header\<lparr>comments := comments header @ [line]\<rparr>) currentElement
            else if lineType = Some ''element'' then
              parseHeader_lines propertyNameMapping lines
                (case currentElement of
                   None \<Rightarrow> header
                 | Some e \<Rightarrow> header\<lparr>elements := elements header @ [e]\<rparr>)
                (Some \<lparr>name = item lineValues 0, count = parseInt (item lineValues 1),
                        properties = []\<rparr>)
            else if lineType = Some ''property'' then
              (case currentElement of
                 None \<Rightarrow> Inl TypeError
               | Some e \<Rightarrow>
                   parseHeader_lines propertyNameMapping lines header
                     (Some (e\<lparr>properties := properties e @
                              [make_ply_element_property lineValues propertyNameMapping]\<rparr>)))
            else parseHeader_lines propertyNameMapping lines header currentElement))"

definition parseHeader :: "(string \<rightharpoonup> string) \<Rightarrow> string \<Rightarrow> error + Header" where
  "parseHeader propertyNameMapping data =
     (let (headerText, headerLength) =
            (case patternHeader_exec data of
               None \<Rightarrow> ([], 0)
             | Some (matched, captured) \<Rightarrow> (captured, length matched));
          header = \<lparr>comments = [], elements = [], headerLength = headerLength,
                    format = None, version = None\<rparr>;
          lines = split_lines headerText
      in case parseHeader_lines propertyNameMapping lines header None of
           Inl e \<Rightarrow> Inl e
         | Inr (header, currentElement) \<Rightarrow>
             Inr (case currentElement of
                    None \<Rightarrow> header
                  | Some e \<Rightarrow> header\<lparr>elements := elements header @ [e]\<rparr>))"

section \<open>PLY: the ASCII body\<close>

definition parseASCIINumber :: "string option \<Rightarrow> string option \<Rightarrow> jsval" where
  "parseASCIINumber n type =
     (if type \<in> Some ` {''char'', ''uchar'', ''short'', ''ushort'', ''int'', ''uint'',
                          ''int8'', ''uint8'', ''int16'', ''uint16'', ''int32'', ''uint32''}
      then Number (parseInt n)
      else if type \<in> Some ` {''float'', ''double'', ''float32'', ''float64''}
      then Number (parseFloat n)
      else Undefined)"

text \<open>
  The inner loop of \<open>parseASCIIElement\<close> runs while \<open>j < n\<close>: no turn when \<open>n\<close> is
  not a positive number, \<open>\<lceil>n\<rceil>\<close> turns for a finite one, and without end for
  \<open>Infinity\<close> (the count token \<open>Infinity\<close> under a float count type). Each turn
  pushes onto the list, and an array holds at most \<open>2^32 - 1\<close> entries: a loop that
  would go further ends in a \<open>RangeError\<close>, reported here as \<open>OutOfBounds\<close>.
\<close>

definition turns :: "jsval \<Rightarrow> nat option" where
  "turns n =
     (case ToNumber n of
        Num r \<Rightarrow> if \<lceil>r\<rceil> < (4294967296 :: int) then Some (nat \<lceil>r\<rceil>) else None
      | PosInfinity \<Rightarrow> None
      | _ \<Rightarrow> Some 0)"

fun readList :: "nat \<Rightarrow> string option \<Rightarrow> string list \<Rightarrow> jsval list \<times> string list" where
  "readList 0 type values = ([], values)"
| "readList (Suc k) type values =
     (let (v, rest) = shift values;
          (vs, rest') = readList k type rest
      in (parseASCIINumber v type # vs, rest'))"

fun parseASCIIElement_loop :: "Property list \<Rightarrow> string list \<Rightarrow> element \<Rightarrow> error + element" where
  "parseASCIIElement_loop [] values element = Inr element"
| "parseASCIIElement_loop (p # ps) values element =
     (if ptype p = Some ''list'' then
        (let (v, rest) = shift values in
         case turns (parseASCIINumber v (countType p)) of
           None \<Rightarrow> Inl OutOfBounds
         | Some n \<Rightarrow>
             (let (list, rest') = readList n (itemType p) rest
              in parseASCIIElement_loop ps rest' (element(key (pname p) \<mapsto> Array list))))
      else
        (let (v, rest) = shift values
         in parseASCIIElement_loop ps rest
              (element(key (pname p) \<mapsto> parseASCIINumber v (ptype p)))))"

definition parseASCIIElement :: "Property list \<Rightarrow> string \<Rightarrow> error + element" where
  "parseASCIIElement props line = parseASCIIElement_loop props (split_ws line) Map.empty"

text \<open>
  \<open>currentElementCount >= count\<close> on numbers: false when the count is \<open>NaN\<close>.
\<close>

fun js_ge :: "nat \<Rightarrow> jsnum \<Rightarrow> bool" where
  "js_ge n (Num r) = (r \<le> rat_of_nat n)"
| "js_ge n NaN = False"
| "js_ge n PosInfinity = False"
| "js_ge n NegInfinity = True"

text \<open>
  The body of the loop of \<open>parseASCII\<close> for a line that is not blank, on the
  element cursor, the count of records read for that element and the mesh.
  \<open>header.elements[i]\<close> beyond the declared elements is \<open>undefined\<close>, and reading
  its \<open>count\<close> or its \<open>properties\<close> is a \<open>TypeError\<close>.
\<close>

definition parseASCII_line ::
  "Header \<Rightarrow> string \<Rightarrow> nat \<Rightarrow> nat \<Rightarrow> Geometry \<Rightarrow> error + (nat \<times> nat \<times> Geometry)" where
  "parseASCII_line header line currentElement currentElementCount geometry =
     (case item (elements header) currentElement of
        None \<Rightarrow> Inl TypeError
      | Some e \<Rightarrow>
          (let (currentElement, currentElementCount) =
                 (if js_ge currentElementCount (count e) then (currentElement + 1, 0)
                  else (currentElement, currentElementCount))
           in case item (elements header) currentElement of
                None \<Rightarrow> Inl TypeError
              | Some e \<Rightarrow>
                  (case parseASCIIElement (properties e) line of
                     Inl err \<Rightarrow> Inl err
                   | Inr element \<Rightarrow>
                       (case handleElement geometry (name e) element of
                          Inl err \<Rightarrow> Inl err
                        | Inr geometry \<Rightarrow>
                            Inr (currentElement, currentElementCount + 1, geometry)))))"

text \<open>
  The loop over the lines of the body: blank lines are skipped, and the end of the lines
  ends the loop.
\<close>

fun parseASCII_lines ::
  "Header \<Rightarrow> string list \<Rightarrow> nat \<Rightarrow> nat \<Rightarrow> Geometry \<Rightarrow> error + Geometry" where
  "parseASCII_lines header [] currentElement currentElementCount geometry = Inr geometry"
| "parseASCII_lines header (l # lines) currentElement currentElementCount geometry =
     (let line = trim l in
      if line = [] then
        parseASCII_lines header lines currentElement currentElementCount geometry
      else
        (case parseASCII_line header line currentElement currentElementCount geometry of
           Inl err \<Rightarrow> Inl err
         | Inr (currentElement, currentElementCount, geometry) \<Rightarrow>
             parseASCII_lines header lines currentElement currentElementCount geometry))"

definition parseASCII :: "(string \<rightharpoonup> string) \<Rightarrow> string \<Rightarrow> error + Geometry" where
  "parseASCII propertyNameMapping data =
     (case parseHeader propertyNameMapping data of
        Inl e \<Rightarrow> Inl e
      | Inr header \<Rightarrow>
          (let body = (case patternBody_exec data of None \<Rightarrow> [] | Some captured \<Rightarrow> captured);
               lines = split_lines body
           in case parseASCII_lines header lines 0 0 (new_Geometry\<lparr>useColor := False\<rparr>) of
                Inl e \<Rightarrow> Inl e
              | Inr geometry \<Rightarrow> Inr (postProcess geometry)))"

section \<open>PLY: statements about the header and example inputs\<close>

text \<open>
  The text the header loop runs over, and what a \<open>comment\<close> line contributes: the
  tokens after the directive, joined by single spaces.
\<close>

definition headerText :: "string \<Rightarrow> string" where
  "headerText data =
     (case patternHeader_exec data of None \<Rightarrow> [] | Some (matched, captured) \<Rightarrow> captured)"

definition isCommentLine :: "string \<Rightarrow> bool" where
  "isCommentLine l = (trim l \<noteq> [] \<and> fst (shift (split_ws (trim l))) = Some ''comment'')"

definition commentOf :: "string \<Rightarrow> string" where
  "commentOf l = join '' '' (snd (shift (split_ws (trim l))))"

text \<open>A file is its lines, each ended by a line feed.\<close>

definition text_file :: "string list \<Rightarrow> string" where
  "text_file ls = concat (map (\<lambda>l. l @ [CHR 0x0A]) ls)"

text \<open>
  A header with a comment that has runs of spaces inside, declaring two vertices and a
  face, over a body of a single vertex line.
\<close>

definition ply_short_body :: string where
  "ply_short_body = text_file
     [''ply'', ''format ascii 1.0'', ''comment made  by   hand'', ''comment made  by   hand'',
      ''element vertex 2'', ''property float x'', ''property float y'', ''property float z'',
      ''element face 1'', ''property list uchar int vertex_indices'',
      ''end_header'', ''0.5 -2 1e1'']"

text \<open>A complete file with a triangle, a quad and a face of five indices.\<close>

definition ply_faces :: string where
  "ply_faces = text_file
     [''ply'', ''format ascii 1.0'',
      ''element vertex 1'', ''property float x'', ''property float y'', ''property float z'',
      ''element face 3'', ''property list uchar int vertex_indices'',
      ''end_header'', ''0 0 0'', ''3 0 1 2'', ''5 0 1 2 3 4'', ''4 0 1 2 3'']"

text \<open>
  A file that declares the vertex element twice, with the color channels the first time
  only.
\<close>

definition ply_mixed_color :: string where
  "ply_mixed_color = text_file
     [''ply'', ''format ascii 1.0'',
      ''element vertex 1'', ''property float x'', ''property float y'', ''property float z'',
      ''property uchar red'', ''property uchar green'', ''property uchar blue'',
      ''element vertex 1'', ''property float x'', ''property float y'', ''property float z'',
      ''end_header'', ''0 0 0 255 0 0'', ''1 1 1'']"

text \<open>The header of a vertex and three faces, and the records used as examples.\<close>

definition vertex_face_header :: Header where
  "vertex_face_header =
     \<lparr>comments = [],
      elements =
        [\<lparr>name = Some ''vertex'', count = Num 1,
          properties =
            [\<lparr>ptype = Some ''float'', pname = Some ''x'', countType = None, itemType = None\<rparr>,
             \<lparr>ptype = Some ''float'', pname = Some ''y'', countType = None, itemType = None\<rparr>,
             \<lparr>ptype = Some ''float'', pname = Some ''z'', countType = None, itemType = None\<rparr>]\<rparr>,
         \<lparr>name = Some ''face'', count = Num 3,
          properties =
            [\<lparr>ptype = Some ''list'', pname = Some ''vertex_indices'',
              countType = Some ''uchar'', itemType = Some ''int''\<rparr>]\<rparr>],
      headerLength = 0, format = Some ''ascii'', version = Some ''1.0''\<rparr>"

definition face_record :: "rat list \<Rightarrow> element" where
  "face_record is = [''vertex_indices'' \<mapsto> Array (map (\<lambda>i. Number (Num i)) is)]"

definition plain_vertex :: element where
  "plain_vertex = [''x'' \<mapsto> Number (Num 1), ''y'' \<mapsto> Number (Num 2), ''z'' \<mapsto> Number (Num 3),
                   ''nx'' \<mapsto> Number (Num 7)]"

definition red_vertex :: element where
  "red_vertex = [''x'' \<mapsto> Number (Num 0), ''y'' \<mapsto> Number (Num 0), ''z'' \<mapsto> Number (Num 0),
                 ''red'' \<mapsto> Number (Num 255), ''green'' \<mapsto> Number (Num 0),
                 ''blue'' \<mapsto> Number (Num 0)]"

section \<open>The view's float reads\<close>

text \<open>
  \<open>getFloat32\<close> and \<open>getFloat64\<close> on the bytes of a buffer. The bytes \<open>b\<close> come
  from \<open>_getBytes\<close>, which reverses them unless the read is little-endian. The bitwise
  operators work on 32-bit integers and answer a signed one (\<open>sint\<close>); their operands
  here are bytes, so \<open>>>\<close> shifts in zeros. The sign times \<open>Infinity\<close> is the
  infinity of that sign. The numbers of the arithmetic are integers below \<open>2^53\<close>
  and powers of two, and every result is a double as it stands.
\<close>

definition int32 :: "byte \<Rightarrow> 32 word" where
  "int32 b = ucast b"

definition times_Infinity :: "int \<Rightarrow> jsnum" where
  "times_Infinity sign = (if 0 < sign then PosInfinity else if sign < 0 then NegInfinity else NaN)"

definition getFloat32 :: "DataView \<Rightarrow> nat \<Rightarrow> bool \<Rightarrow> error + jsnum" where
  "getFloat32 dv off littleEndian =
     (case getBytes dv 4 off littleEndian of
        Inl e \<Rightarrow> Inl e
      | Inr b \<Rightarrow>
          (let sign = 1 - (2 * sint (drop_bit 7 (int32 (b ! 3))));
               exponent = sint ((push_bit 1 (int32 (b ! 3)) AND 0xff) OR drop_bit 7 (int32 (b ! 2)))
                            - 127;
               mantissa = sint (push_bit 16 (int32 (b ! 2) AND 0x7f) OR push_bit 8 (int32 (b ! 1))
                                  OR int32 (b ! 0))
           in Inr (if exponent = 128 then
                     (if mantissa \<noteq> 0 then NaN else times_Infinity sign)
                   else if exponent = - 127 then
                     Num (of_int sign * of_int mantissa * pow2 (- 126 - 23))
                   else
                     Num (of_int sign * (1 + of_int mantissa * pow2 (- 23)) * pow2 exponent))))"

text \<open>
  In \<open>getFloat64\<close> the mantissa is built with \<open>+\<close> and \<open>Math.pow\<close> on numbers, as
  the source notes, because it does not fit 32 bits.
\<close>

definition getFloat64 :: "DataView \<Rightarrow> nat \<Rightarrow> bool \<Rightarrow> error + jsnum" where
  "getFloat64 dv off littleEndian =
     (case getBytes dv 8 off littleEndian of
        Inl e \<Rightarrow> Inl e
      | Inr b \<Rightarrow>
          (let sign = 1 - (2 * sint (drop_bit 7 (int32 (b ! 7))));
               exponent = sint (push_bit 3 (push_bit 1 (int32 (b ! 7)) AND 0xff)
                                  OR drop_bit 4 (int32 (b ! 6)))
                            - (sint (push_bit 10 (1 :: 32 word)) - 1);
               mantissa = (sint (int32 (b ! 6) AND 0x0f) * 2 ^ 48) + (uint (b ! 5) * 2 ^ 40)
                            + (uint (b ! 4) * 2 ^ 32) + (uint (b ! 3) * 2 ^ 24)
                            + (uint (b ! 2) * 2 ^ 16) + (uint (b ! 1) * 2 ^ 8) + uint (b ! 0)
           in Inr (if exponent = 1024 then
                     (if mantissa \<noteq> 0 then NaN else times_Infinity sign)
                   else if exponent = - 1023 then
                     Num (of_int sign * of_int mantissa * pow2 (- 1022 - 52))
                   else
                     Num (of_int sign * (1 + of_int mantissa * pow2 (- 52)) * pow2 exponent))))"

subsection \<open>The binary interchange formats\<close>

text \<open>
  The value of an IEEE 754 binary format with \<open>ew\<close> exponent bits and \<open>fw\<close> fraction
  bits, from the sign bit, the biased exponent and the fraction: an all-ones exponent is
  an infinity (zero fraction) or a NaN; a zero exponent is a subnormal number (or zero),
  without the implicit leading one and at the smallest exponent; every other exponent is
  a normal number.
\<close>

definition ieee754 :: "nat \<Rightarrow> nat \<Rightarrow> bool \<Rightarrow> nat \<Rightarrow> nat \<Rightarrow> jsnum" where
  "ieee754 ew fw s e f =
     (let bias = 2 ^ (ew - 1) - 1 :: int;
          sgn = (if s then - 1 else 1 :: rat)
      in if e = 2 ^ ew - 1 then
           (if f = 0 then (if s then NegInfinity else PosInfinity) else NaN)
         else if e = 0 then Num (sgn * (of_nat f / 2 ^ fw) * pow2 (1 - bias))
         else Num (sgn * (1 + of_nat f / 2 ^ fw) * pow2 (int e - bias)))"

definition binary32 :: "32 word \<Rightarrow> jsnum" where
  "binary32 w = ieee754 8 23 (bit w 31) (unat (take_bit 8 (drop_bit 23 w))) (unat (take_bit 23 w))"

definition binary64 :: "64 word \<Rightarrow> jsnum" where
  "binary64 w = ieee754 11 52 (bit w 63) (unat (take_bit 11 (drop_bit 52 w))) (unat (take_bit 52 w))"

text \<open>
  The bit pattern that stored bytes encode: the first byte is the least significant in
  little-endian order and the most significant in big-endian order.
\<close>

definition little_endian_word :: "byte list \<Rightarrow> 'a::len word" where
  "little_endian_word m = foldr (\<lambda>b acc. push_bit 8 acc OR ucast b) m 0"

definition stored_word :: "bool \<Rightarrow> byte list \<Rightarrow> 'a::len word" where
  "stored_word littleEndian m = little_endian_word (if littleEndian then m else rev m)"

text \<open>The same bytes as a number: the sum of the bytes times the powers of 256.\<close>

definition little_endian_nat :: "byte list \<Rightarrow> nat" where
  "little_endian_nat m = foldr (\<lambda>b acc. unat b + 256 * acc) m 0"

text \<open>The bytes a read of \<open>n\<close> bytes at an offset of the view covers.\<close>

definition stored_bytes :: "DataView \<Rightarrow> nat \<Rightarrow> nat \<Rightarrow> byte list" where
  "stored_bytes dv off n = take n (drop (byteOffset dv + off) (buffer dv))"

section \<open>STL: the binary decoder\<close>

text \<open>
  Failure of a step ends the decode with that failure.
\<close>

definition bind :: "error + 'a \<Rightarrow> ('a \<Rightarrow> error + 'b) \<Rightarrow> error + 'b" where
  "bind m f = (case m of Inl e \<Rightarrow> Inl e | Inr v \<Rightarrow> f v)"

text \<open>
  The variables of \<open>parseBinary\<close> that the scan of the header assigns. A variable that
  was never assigned is \<open>undefined\<close> (\<open>None\<close>). \<open>colors\<close> is allocated when the
  signature is found; a fresh \<open>Float32Array\<close> holds zeros. A number written into a
  \<open>Float32Array\<close> is rounded to single precision (\<open>toFloat32\<close>); \<open>NaN\<close> and the
  infinities are kept.
\<close>

record HeaderColor =
  hasColors :: bool
  stl_colors :: "jsnum list"
  defaultR :: "jsnum option"
  defaultG :: "jsnum option"
  defaultB :: "jsnum option"
  alpha :: "jsnum option"

definition Float32Array :: "nat \<Rightarrow> jsnum list" where
  "Float32Array n = replicate n (Num 0)"

definition toFloat32 :: "jsnum \<Rightarrow> jsnum" where
  "toFloat32 n = (case n of Num r \<Rightarrow> fround r | _ \<Rightarrow> n)"

text \<open>
  The test of the header scan at one offset: the four bytes \<open>COLO\<close> read big-endian,
  then \<open>R\<close>, then \<open>=\<close>; \<open>&&\<close> reads the next byte only after a match.
\<close>

definition colorSignatureAt :: "DataView \<Rightarrow> nat \<Rightarrow> error + bool" where
  "colorSignatureAt reader index =
     bind (getUint32 reader index False) (\<lambda>w.
       if w \<noteq> 0x434F4C4F then Inr False
       else bind (getUint8 reader (index + 4)) (\<lambda>c.
         if c \<noteq> 0x52 then Inr False
         else bind (getUint8 reader (index + 5)) (\<lambda>d. Inr (d = 0x3D))))"

text \<open>A byte of the header over 255: the quotient is a double.\<close>

definition byteOver255 :: "DataView \<Rightarrow> nat \<Rightarrow> error + jsnum option" where
  "byteOver255 reader pos =
     bind (getUint8 reader pos) (\<lambda>v. Inr (Some (js_div (Num (rat_of_nat v)) 255)))"

function parseBinary_header :: "DataView \<Rightarrow> nat \<Rightarrow> nat \<Rightarrow> HeaderColor \<Rightarrow> error + HeaderColor" where
  "parseBinary_header reader n_faces index st =
     (if index < 80 - 10 then
        bind (colorSignatureAt reader index) (\<lambda>found.
          if found then
            bind (byteOver255 reader (index + 6)) (\<lambda>r.
            bind (byteOver255 reader (index + 7)) (\<lambda>g.
            bind (byteOver255 reader (index + 8)) (\<lambda>b.
            bind (byteOver255 reader (index + 9)) (\<lambda>a.
              parseBinary_header reader n_faces (index + 1)
                \<lparr>hasColors = True, stl_colors = Float32Array (n_faces * 3 * 3),
                 defaultR = r, defaultG = g, defaultB = b, alpha = a\<rparr>))))
          else parseBinary_header reader n_faces (index + 1) st)
      else Inr st)"
  by pat_completeness auto
termination
  by (relation "measure (\<lambda>(reader, n_faces, index, st). 70 - index)") auto

declare parseBinary_header.simps [simp del]

text \<open>
  The three arrays the face loop fills, and the color of a face from its packed 16 bits:
  with bit 15 clear the three 5-bit fields over 31 (each quotient a double), otherwise
  the default of the header. The packed value is between 0 and \<open>2^16\<close>, so the 32-bit
  operators act on it as on an integer.
\<close>

record Arrays =
  stl_vertices :: "jsnum list"
  stl_normals :: "jsnum list"
  stl_face_colors :: "jsnum list"

definition faceColor :: "HeaderColor \<Rightarrow> int \<Rightarrow> jsnum option \<times> jsnum option \<times> jsnum option" where
  "faceColor st packedColor =
     (if packedColor AND 0x8000 = 0 then
        (Some (js_div (Num (rat_of_int (packedColor AND 0x1F))) 31),
         Some (js_div (Num (rat_of_int (drop_bit 5 packedColor AND 0x1F))) 31),
         Some (js_div (Num (rat_of_int (drop_bit 10 packedColor AND 0x1F))) 31))
      else (defaultR st, defaultG st, defaultB st))"

text \<open>
  Storing a variable into a \<open>Float32Array\<close> converts it to a number first:
  \<open>undefined\<close> is \<open>NaN\<close>.
\<close>

definition stored :: "jsnum option \<Rightarrow> jsnum" where
  "stored v = (case v of None \<Rightarrow> NaN | Some n \<Rightarrow> toFloat32 n)"

text \<open>The inner loop over the three vertices of a face, \<open>i\<close> from 1 to 3.\<close>

function parseBinary_vertices ::
  "DataView \<Rightarrow> bool \<Rightarrow> nat \<Rightarrow> jsnum \<times> jsnum \<times> jsnum
     \<Rightarrow> jsnum option \<times> jsnum option \<times> jsnum option \<Rightarrow> nat \<Rightarrow> nat \<Rightarrow> Arrays
     \<Rightarrow> error + (nat \<times> Arrays)" where
  "parseBinary_vertices reader colored start n rgb i offset arrays =
     (if i \<le> 3 then
        (let vertexstart = start + i * 12 in
         bind (getFloat32 reader vertexstart True) (\<lambda>x.
         bind (getFloat32 reader (vertexstart + 4) True) (\<lambda>y.
         bind (getFloat32 reader (vertexstart + 8) True) (\<lambda>z.
           (case (n, rgb) of ((normalX, normalY, normalZ), (r, g, b)) \<Rightarrow>
              parseBinary_vertices reader colored start n rgb (i + 1) (offset + 3)
                \<lparr>stl_vertices = (stl_vertices arrays)
                                   [offset := toFloat32 x, offset + 1 := toFloat32 y,
                                    offset + 2 := toFloat32 z],
                 stl_normals = (stl_normals arrays)
                                   [offset := toFloat32 normalX, offset + 1 := toFloat32 normalY,
                                    offset + 2 := toFloat32 normalZ],
                 stl_face_colors =
                   (if colored then
                      (stl_face_colors arrays)
                         [offset := stored r, offset + 1 := stored g, offset + 2 := stored b]
                    else stl_face_colors arrays)\<rparr>)))))
      else Inr (offset, arrays))"
  by pat_completeness auto
termination
  by (relation "measure (\<lambda>(reader, colored, start, n, rgb, i, offset, arrays). 4 - i)") auto

declare parseBinary_vertices.simps [simp del]

text \<open>
  The loop over the faces; \<open>n_faces\<close> is their count (\<open>faces\<close> in the source).
  \<open>r\<close>, \<open>g\<close> and \<open>b\<close> are assigned for each face when the header had the
  signature, and are not read otherwise.
\<close>

function parseBinary_faces ::
  "DataView \<Rightarrow> HeaderColor \<Rightarrow> nat \<Rightarrow> nat \<Rightarrow> nat \<Rightarrow> Arrays \<Rightarrow> error + Arrays" where
  "parseBinary_faces reader st n_faces face offset arrays =
     (if face < n_faces then
        (let dataOffset = 84; faceLength = 12 * 4 + 2;
             start = dataOffset + face * faceLength in
         bind (getFloat32 reader start True) (\<lambda>normalX.
         bind (getFloat32 reader (start + 4) True) (\<lambda>normalY.
         bind (getFloat32 reader (start + 8) True) (\<lambda>normalZ.
         bind (if hasColors st then
                 bind (getUint16 reader (start + 48) True) (\<lambda>packedColor.
                   Inr (faceColor st packedColor))
               else Inr (None, None, None)) (\<lambda>rgb.
         bind (parseBinary_vertices reader (hasColors st) start (normalX, normalY, normalZ)
                 rgb 1 offset arrays) (\<lambda>(offset, arrays).
           parseBinary_faces reader st n_faces (face + 1) offset arrays))))))
      else Inr arrays)"
  by pat_completeness auto
termination
  by (relation "measure (\<lambda>(reader, st, n_faces, face, offset, arrays). n_faces - face)") auto

declare parseBinary_faces.simps [simp del]

text \<open>
  The geometry returned: the attributes \<open>position\<close> and \<open>normal\<close>, and, when the
  header had the signature, the attribute \<open>color\<close>, the flag and the opacity.
\<close>

record BufferGeometry =
  position :: "jsnum list"
  normal :: "jsnum list"
  color :: "jsnum list option"
  geometry_hasColors :: bool
  geometry_alpha :: "jsnum option"

definition parseBinary :: "byte list \<Rightarrow> error + BufferGeometry" where
  "parseBinary data =
     (let reader = \<lparr>buffer = data, byteOffset = 0\<rparr> in
      bind (getUint32 reader 80 True) (\<lambda>n. let n_faces = nat n in
      bind (parseBinary_header reader n_faces 0
              \<lparr>hasColors = False, stl_colors = [], defaultR = None, defaultG = None,
               defaultB = None, alpha = None\<rparr>) (\<lambda>st.
      bind (parseBinary_faces reader st n_faces 0 0
              \<lparr>stl_vertices = Float32Array (n_faces * 3 * 3),
               stl_normals = Float32Array (n_faces * 3 * 3),
               stl_face_colors = stl_colors st\<rparr>) (\<lambda>arrays.
        Inr \<lparr>position = stl_vertices arrays, normal = stl_normals arrays,
             color = (if hasColors st then Some (stl_face_colors arrays) else None),
             geometry_hasColors = hasColors st,
             geometry_alpha = (if hasColors st then alpha st else None)\<rparr>))))"

subsection \<open>Reading the file layout\<close>

text \<open>
  What the statements about the decoder refer to: the signature \<open>COLOR=\<close> at an offset
  of the header, the unsigned little-endian value of two bytes, the packed color of a
  face, the two bytes at offset 48 of its 50-byte record (the records start at offset 84),
  and a color channel \<open>n / d\<close> as the color array holds it: the quotient of the two
  integers, a double, rounded to single precision.
\<close>

definition colorSignature :: "byte list \<Rightarrow> nat \<Rightarrow> bool" where
  "colorSignature data k = (take 6 (drop k data) = [0x43, 0x4F, 0x4C, 0x4F, 0x52, 0x3D])"

definition le16 :: "byte \<Rightarrow> byte \<Rightarrow> nat" where
  "le16 b0 b1 = unat b0 + 256 * unat b1"

definition packedColorAt :: "byte list \<Rightarrow> nat \<Rightarrow> int" where
  "packedColorAt data face = int (le16 (data ! (84 + 50 * face + 48)) (data ! (84 + 50 * face + 49)))"

definition channel :: "int \<Rightarrow> int \<Rightarrow> jsnum" where
  "channel n d = toFloat32 (double (rat_of_int n / rat_of_int d))"

text \<open>
  The variables as the scan leaves them after a signature at offset \<open>k\<close>: the three
  bytes after it, each over 255 as a double, are the default color, and the fourth the
  opacity.
\<close>

definition coloredAt :: "byte list \<Rightarrow> nat \<Rightarrow> nat \<Rightarrow> HeaderColor" where
  "coloredAt data n k =
     \<lparr>hasColors = True, stl_colors = Float32Array (n * 3 * 3),
      defaultR = Some (double (rat_of_nat (unat (data ! (k + 6))) / 255)),
      defaultG = Some (double (rat_of_nat (unat (data ! (k + 7))) / 255)),
      defaultB = Some (double (rat_of_nat (unat (data ! (k + 8))) / 255)),
      alpha = Some (double (rat_of_nat (unat (data ! (k + 9))) / 255))\<rparr>"

text \<open>
  Example files. One triangle under a header that starts with \<open>COLOR=\<close> and the bytes
  255, 0, 0, 255; its first vertex is (1, 0, 0) and its packed color is \<open>0x8000\<close>. The
  same file with the packed color \<open>0x7C01\<close>: the fields 1, 0 and 31. An empty file
  whose bytes 76 to 79 hold a 1. A file of one zero triangle, without the signature,
  whose bytes 76 to 79 hold a 0.
\<close>

definition stl_red_triangle :: "byte list" where
  "stl_red_triangle =
     [0x43, 0x4F, 0x4C, 0x4F, 0x52, 0x3D] @ [255, 0, 0, 255] @ replicate 70 0
       @ [1, 0, 0, 0]
       @ replicate 12 0 @ [0, 0, 0x80, 0x3f, 0, 0, 0, 0, 0, 0, 0, 0] @ replicate 24 0 @ [0x00, 0x80]"

definition stl_packed_triangle :: "byte list" where
  "stl_packed_triangle =
     [0x43, 0x4F, 0x4C, 0x4F, 0x52, 0x3D] @ [255, 0, 0, 255] @ replicate 70 0
       @ [1, 0, 0, 0]
       @ replicate 12 0 @ [0, 0, 0x80, 0x3f, 0, 0, 0, 0, 0, 0, 0, 0] @ replicate 24 0 @ [0x01, 0x7C]"

definition stl_one_at_76 :: "byte list" where
  "stl_one_at_76 = replicate 76 0 @ [1, 0, 0, 0] @ [0, 0, 0, 0]"

definition stl_one_at_80 :: "byte list" where
  "stl_one_at_80 = replicate 76 0 @ [0, 0, 0, 0] @ [1, 0, 0, 0] @ replicate 50 0"

section \<open>The fallback view and the buffers it is given\<close>

text \<open>
  The source installs its own \<open>DataView\<close> when the host has none. The constructor keeps
  the buffer it is given: an array of byte values, a string of one character per byte
  (the buffer its comment names), or an \<open>ArrayBuffer\<close> (what the loaders pass). An
  omitted argument is \<open>undefined\<close> (\<open>None\<close>), and \<open>||\<close> (\<open>or_else\<close>) passes over
  \<open>undefined\<close> and 0: \<open>byteLength\<close> is the argument, else \<open>buffer.byteLength\<close>, else
  \<open>buffer.length\<close>; an \<open>ArrayBuffer\<close> has no \<open>length\<close>, an array and a string have
  no \<open>byteLength\<close>. Whether the buffer is a string is recorded in the property
  \<open>_isString\<close>.
\<close>

datatype jsbuffer = ByteArray "byte list" | BinaryString string | ArrayBuffer "byte list"

record View =
  view_buffer :: jsbuffer
  view_byteOffset :: nat
  view_byteLength :: "nat option"
  view_isString :: bool

definition or_else :: "nat option \<Rightarrow> nat option \<Rightarrow> nat option" where
  "or_else a b = (case a of None \<Rightarrow> b | Some n \<Rightarrow> if n = 0 then b else a)"

definition buffer_byteLength :: "jsbuffer \<Rightarrow> nat option" where
  "buffer_byteLength buf = (case buf of ArrayBuffer bs \<Rightarrow> Some (length bs) | _ \<Rightarrow> None)"

definition buffer_length :: "jsbuffer \<Rightarrow> nat option" where
  "buffer_length buf =
     (case buf of
        ByteArray bs \<Rightarrow> Some (length bs)
      | BinaryString s \<Rightarrow> Some (length s)
      | ArrayBuffer bs \<Rightarrow> None)"

definition new_DataView :: "jsbuffer \<Rightarrow> nat option \<Rightarrow> nat option \<Rightarrow> View" where
  "new_DataView buf offset_arg length_arg =
     \<lparr>view_buffer = buf,
      view_byteOffset = (case offset_arg of None \<Rightarrow> 0 | Some n \<Rightarrow> n),
      view_byteLength = or_else length_arg (or_else (buffer_byteLength buf) (buffer_length buf)),
      view_isString = (case buf of BinaryString s \<Rightarrow> True | _ \<Rightarrow> False)\<rparr>"

text \<open>
  \<open>_getBytes\<close> tests the property \<open>isString\<close>. No statement of the source assigns
  it (the constructor assigns \<open>_isString\<close>), so it is \<open>undefined\<close> on every view, and
  every read takes the \<open>slice\<close> of the buffer as it is: of an array an array, of a
  string a string, of an \<open>ArrayBuffer\<close> an \<open>ArrayBuffer\<close>.
\<close>

definition isString :: "View \<Rightarrow> bool" where
  "isString dv = False"

text \<open>
  What \<open>_getBytes\<close> returns, and an element \<open>b[i]\<close> of it: a byte value, a string of
  one character, or \<open>undefined\<close>. An \<open>ArrayBuffer\<close> has no indexed elements.
\<close>

datatype cell = ByteCell byte | CharCell char | NoCell

datatype jsbytes = ArrayOf "cell list" | StringOf string | BufferOf "byte list"

definition cell_at :: "jsbytes \<Rightarrow> nat \<Rightarrow> cell" where
  "cell_at b i =
     (case b of
        ArrayOf xs \<Rightarrow> if i < length xs then xs ! i else NoCell
      | StringOf s \<Rightarrow> if i < length s then CharCell (s ! i) else NoCell
      | BufferOf bs \<Rightarrow> NoCell)"

definition buffer_slice :: "jsbuffer \<Rightarrow> nat \<Rightarrow> nat \<Rightarrow> jsbytes" where
  "buffer_slice buf start end =
     (case buf of
        ByteArray bs \<Rightarrow> ArrayOf (map ByteCell (slice bs start end))
      | BinaryString s \<Rightarrow> StringOf (slice s start end)
      | ArrayBuffer bs \<Rightarrow> BufferOf (slice bs start end))"

text \<open>
  \<open>_getCharCodes\<close>, the conversion of a string buffer that the branch on \<open>isString\<close>
  would call: the character codes from \<open>start\<close> to \<open>start + length\<close>, each masked to
  a byte; past the end of the string \<open>charCodeAt\<close> is \<open>NaN\<close>, which masks to 0. A
  \<open>length\<close> of 0 is replaced by the length of the buffer. Only a string has
  \<open>charCodeAt\<close>.
\<close>

definition getCharCodes :: "jsbuffer \<Rightarrow> nat \<Rightarrow> nat \<Rightarrow> error + jsbytes" where
  "getCharCodes buf start len =
     (case buf of
        BinaryString s \<Rightarrow>
          (let n = (if len = 0 then length s else len);
               end = start + n
           in Inr (ArrayOf (map (\<lambda>i. ByteCell (if i < length s then of_char (s ! i) else 0))
                              [start ..< end])))
      | _ \<Rightarrow> Inl TypeError)"

text \<open>
  The reversal of a read that is not little-endian: a result that is not an array is
  first copied into one by \<open>Array.prototype.slice\<close>, which finds the characters of a
  string and nothing in an \<open>ArrayBuffer\<close>.
\<close>

definition reversed :: "jsbytes \<Rightarrow> jsbytes" where
  "reversed result =
     (case result of
        ArrayOf xs \<Rightarrow> ArrayOf (rev xs)
      | StringOf s \<Rightarrow> ArrayOf (rev (map CharCell s))
      | BufferOf bs \<Rightarrow> ArrayOf (rev []))"

text \<open>
  \<open>_getBytes\<close>. A read without an offset starts at the offset of the view, which is
  also what the offset 0 gives. A comparison with an \<open>undefined\<close> \<open>byteLength\<close> is
  false, so nothing is out of bounds then.
\<close>

definition fallback_getBytes :: "View \<Rightarrow> nat \<Rightarrow> nat \<Rightarrow> bool \<Rightarrow> error + jsbytes" where
  "fallback_getBytes dv len off littleEndian =
     (let byteOffset = view_byteOffset dv + off in
      if (case view_byteLength dv of None \<Rightarrow> False | Some n \<Rightarrow> byteOffset + len > n)
      then Inl OutOfBounds
      else
        (case (if isString dv then getCharCodes (view_buffer dv) byteOffset (byteOffset + len)
               else Inr (buffer_slice (view_buffer dv) byteOffset (byteOffset + len))) of
           Inl e \<Rightarrow> Inl e
         | Inr result \<Rightarrow> Inr (if \<not> littleEndian \<and> len > 1 then reversed result else result)))"

text \<open>
  The conversion of an element to a number, which every operator applies to it (\<open>None\<close>
  is \<open>NaN\<close>): a string of one character is the digit it shows, 0 when the character is
  whitespace, and \<open>NaN\<close> otherwise; \<open>undefined\<close> is \<open>NaN\<close>. The bitwise
  operators take \<open>NaN\<close> for 0.
\<close>

definition cellNumber :: "cell \<Rightarrow> int option" where
  "cellNumber c =
     (case c of
        ByteCell v \<Rightarrow> Some (uint v)
      | CharCell ch \<Rightarrow> if isSpace ch then Some 0
                       else if isDigit ch then Some (int (digitVal ch)) else None
      | NoCell \<Rightarrow> None)"

definition ToInt32 :: "cell \<Rightarrow> 32 word" where
  "ToInt32 c = (case cellNumber c of None \<Rightarrow> 0 | Some n \<Rightarrow> word_of_int n)"

text \<open>
  \<open>getFloat32\<close> of the fallback. Every operand of its arithmetic is an integer below
  \<open>2^24\<close> or a power of two, so no result is rounded.
\<close>

definition fallback_getFloat32 :: "View \<Rightarrow> nat \<Rightarrow> bool \<Rightarrow> error + jsnum" where
  "fallback_getFloat32 dv off littleEndian =
     (case fallback_getBytes dv 4 off littleEndian of
        Inl e \<Rightarrow> Inl e
      | Inr b \<Rightarrow>
          (let sign = 1 - (2 * sint (drop_bit 7 (ToInt32 (cell_at b 3))));
               exponent = sint ((push_bit 1 (ToInt32 (cell_at b 3)) AND 0xff)
                                  OR drop_bit 7 (ToInt32 (cell_at b 2))) - 127;
               mantissa = sint (push_bit 16 (ToInt32 (cell_at b 2) AND 0x7f)
                                  OR push_bit 8 (ToInt32 (cell_at b 1)) OR ToInt32 (cell_at b 0))
           in Inr (if exponent = 128 then
                     (if mantissa \<noteq> 0 then NaN else times_Infinity sign)
                   else if exponent = - 127 then
                     Num (of_int sign * of_int mantissa * pow2 (- 126 - 23))
                   else
                     Num (of_int sign * (1 + of_int mantissa * pow2 (- 23)) * pow2 exponent))))"

text \<open>
  Sums and products of numbers: the exact result rounded to a double, \<open>NaN\<close> from a
  \<open>NaN\<close>, from an infinity times zero and from the difference of two infinities.
\<close>

definition negative :: "jsnum \<Rightarrow> bool" where
  "negative x = (case x of Num a \<Rightarrow> a < 0 | NegInfinity \<Rightarrow> True | _ \<Rightarrow> False)"

definition js_times :: "jsnum \<Rightarrow> jsnum \<Rightarrow> jsnum" where
  "js_times x y =
     (case (x, y) of
        (Num a, Num b) \<Rightarrow> double (a * b)
      | _ \<Rightarrow> if x = NaN \<or> y = NaN \<or> x = Num 0 \<or> y = Num 0 then NaN
             else if negative x = negative y then PosInfinity else NegInfinity)"

definition js_plus :: "jsnum \<Rightarrow> jsnum \<Rightarrow> jsnum" where
  "js_plus x y =
     (case (x, y) of
        (Num a, Num b) \<Rightarrow> double (a + b)
      | (Num a, _) \<Rightarrow> y
      | (_, Num b) \<Rightarrow> x
      | _ \<Rightarrow> if x = y then x else NaN)"

text \<open>
  The mantissa of \<open>getFloat64\<close> is a sum of numbers, each an element times a power of
  two, to which the element \<open>b[0]\<close> is added last. The sum before it is \<open>NaN\<close> or an
  integer below \<open>2^52\<close>. With a byte value for \<open>b[0]\<close> the mantissa is a number; with
  \<open>undefined\<close> it is \<open>NaN\<close>; with a string of one character, \<open>+\<close> concatenates,
  and the mantissa is the string of the sum (its decimal digits, or \<open>NaN\<close>) followed by
  that character.
\<close>

datatype mantissa = MantissaNumber "int option" | MantissaString "int option" char

definition plus_number :: "int option \<Rightarrow> int option \<Rightarrow> int option" where
  "plus_number x y = (case (x, y) of (Some m, Some n) \<Rightarrow> Some (m + n) | _ \<Rightarrow> None)"

definition times_number :: "int option \<Rightarrow> int \<Rightarrow> int option" where
  "times_number x k = (case x of Some m \<Rightarrow> Some (m * k) | None \<Rightarrow> None)"

definition getFloat64_mantissa :: "jsbytes \<Rightarrow> mantissa" where
  "getFloat64_mantissa b =
     (let s = plus_number (plus_number (plus_number (plus_number (plus_number
                (Some (sint (ToInt32 (cell_at b 6) AND 0x0f) * 2 ^ 48))
                (times_number (cellNumber (cell_at b 5)) (2 ^ 40)))
                (times_number (cellNumber (cell_at b 4)) (2 ^ 32)))
                (times_number (cellNumber (cell_at b 3)) (2 ^ 24)))
                (times_number (cellNumber (cell_at b 2)) (2 ^ 16)))
                (times_number (cellNumber (cell_at b 1)) (2 ^ 8))
      in case cell_at b 0 of
           ByteCell v \<Rightarrow> MantissaNumber (plus_number s (Some (uint v)))
         | CharCell ch \<Rightarrow> MantissaString s ch
         | NoCell \<Rightarrow> MantissaNumber None)"

text \<open>
  The mantissa as a number, where it is multiplied. A string converts to a number when,
  whitespace removed, it is a decimal literal: the digits of the sum followed by
  whitespace or by a point denote the sum, followed by a digit they denote ten times the
  sum plus that digit, rounded to a double; every other string is \<open>NaN\<close>. In
  \<open>mantissa !== 0\<close> a string differs from 0, and so does \<open>NaN\<close>.
\<close>

definition mantissaNumber :: "mantissa \<Rightarrow> jsnum" where
  "mantissaNumber m =
     (case m of
        MantissaNumber None \<Rightarrow> NaN
      | MantissaNumber (Some n) \<Rightarrow> Num (rat_of_int n)
      | MantissaString None ch \<Rightarrow> NaN
      | MantissaString (Some n) ch \<Rightarrow>
          if isSpace ch \<or> ch = CHR ''.'' then Num (rat_of_int n)
          else if isDigit ch then double (rat_of_int (10 * n + int (digitVal ch)))
          else NaN)"

definition mantissa_is_not_0 :: "mantissa \<Rightarrow> bool" where
  "mantissa_is_not_0 m = (case m of MantissaNumber (Some n) \<Rightarrow> n \<noteq> 0 | _ \<Rightarrow> True)"

definition fallback_getFloat64 :: "View \<Rightarrow> nat \<Rightarrow> bool \<Rightarrow> error + jsnum" where
  "fallback_getFloat64 dv off littleEndian =
     (case fallback_getBytes dv 8 off littleEndian of
        Inl e \<Rightarrow> Inl e
      | Inr b \<Rightarrow>
          (let sign = 1 - (2 * sint (drop_bit 7 (ToInt32 (cell_at b 7))));
               exponent = sint (push_bit 3 (push_bit 1 (ToInt32 (cell_at b 7)) AND 0xff)
                                  OR drop_bit 4 (ToInt32 (cell_at b 6)))
                            - (sint (push_bit 10 (1 :: 32 word)) - 1);
               mantissa = getFloat64_mantissa b
           in Inr (if exponent = 1024 then
                     (if mantissa_is_not_0 mantissa then NaN else times_Infinity sign)
                   else if exponent = - 1023 then
                     js_times (js_times (Num (of_int sign)) (mantissaNumber mantissa))
                       (Num (pow2 (- 1022 - 52)))
                   else
                     js_times
                       (js_times (Num (of_int sign))
                          (js_plus (Num 1) (js_times (mantissaNumber mantissa) (Num (pow2 (- 52))))))
                       (Num (pow2 exponent)))))"

text \<open>
  Example buffers: the bytes of 1 in binary32 and in binary64, least significant byte
  first, and the strings of those bytes, one character per byte.
\<close>

definition one_binary32 :: "byte list" where
  "one_binary32 = [0x00, 0x00, 0x80, 0x3f]"

definition one_binary64 :: "byte list" where
  "one_binary64 = [0, 0, 0, 0, 0, 0, 0xf0, 0x3f]"

definition one_binary32_string :: string where
  "one_binary32_string = [CHR 0x00, CHR 0x00, CHR 0x80, CHR 0x3f]"

definition one_binary64_string :: string where
  "one_binary64_string = [CHR 0x00, CHR 0x00, CHR 0x00, CHR 0x00, CHR 0x00, CHR 0x00,
                          CHR 0xf0, CHR 0x3f]"

section \<open>Rounding at work\<close>

lemma double_0: "double 0 = Num 0"
  by (simp add: double_def round_to_def)

lemma double_1: "double 1 = Num 1"
  by code_simp

lemma fround_0: "fround 0 = Num 0"
  by (simp add: fround_def round_to_def)

lemma fround_1: "fround 1 = Num 1"
  by code_simp

section \<open>Facts about the view\<close>

lemma or_push_add: "a < 2 ^ k \<Longrightarrow> push_bit k (b::nat) OR a = b * 2 ^ k + a"
proof -
  assume a: "a < 2 ^ k"
  then have ta: "take_bit k a = a" by (rule take_bit_nat_eq_self)
  have "push_bit k b AND take_bit k a = 0"
    by (simp add: bit_eq_iff bit_simps)
  then have "push_bit k b AND a = 0" by (simp add: ta)
  then have "push_bit k b + a = push_bit k b OR a"
    by (rule disjunctive_add_eq_or)
  then show ?thesis by (simp add: push_bit_eq_mult)
qed

lemma unat_byte_lt: "unat (b::byte) < 256"
  using unsigned_less [of b, where 'a = nat] by simp

lemma unat_ucast_byte32: "unat (ucast (b::byte) :: 32 word) = unat b"
  by (simp add: unsigned_ucast_eq take_bit_nat_eq_self unat_byte_lt [THEN less_trans])

lemma unat_push_byte32:
  "n = 8 \<or> n = 16 \<or> n = 24 \<Longrightarrow>
   unat (push_bit n (ucast (b::byte) :: 32 word)) = push_bit n (unat b)"
proof -
  assume n: "n = 8 \<or> n = 16 \<or> n = 24"
  have "push_bit n (unat b) < 2 ^ 32"
    using unat_byte_lt [of b] n by (auto simp: push_bit_eq_mult)
  then show ?thesis
    by (simp add: unsigned_push_bit_eq unat_ucast_byte32 take_bit_nat_eq_self)
qed

lemma unat_cat32:
  "unat (push_bit 24 (ucast (b3::byte)) OR push_bit 16 (ucast (b2::byte))
           OR push_bit 8 (ucast (b1::byte)) OR (ucast (b0::byte)) :: 32 word)
   = le32 b0 b1 b2 b3"
proof -
  note lt = unat_byte_lt [of b0] unat_byte_lt [of b1] unat_byte_lt [of b2] unat_byte_lt [of b3]
  have "unat (push_bit 24 (ucast b3) OR push_bit 16 (ucast b2)
                      OR push_bit 8 (ucast b1) OR (ucast b0) :: 32 word)
     = push_bit 24 (unat b3) OR push_bit 16 (unat b2) OR push_bit 8 (unat b1) OR unat b0"
    by (simp add: unsigned_or_eq unat_push_byte32 unat_ucast_byte32)
  also have "\<dots> = push_bit 8 (push_bit 8 (push_bit 8 (unat b3) OR unat b2) OR unat b1) OR unat b0"
    by (simp add: or.assoc)
  also have "\<dots> = le32 b0 b1 b2 b3"
    using lt by (simp add: or_push_add le32_def)
  finally show ?thesis .
qed

lemma getBytes_le:
  "getBytes dv len off True =
     (if byteOffset dv + off + len > length (buffer dv) then Inl OutOfBounds
      else Inr (take len (drop (byteOffset dv + off) (buffer dv))))"
  by (simp add: getBytes_def byteLength_def slice_def Let_def)

lemma getUint8_eq:
  "getUint8 dv off =
     (if byteOffset dv + off < length (buffer dv)
      then Inr (unat (buffer dv ! (byteOffset dv + off))) else Inl OutOfBounds)"
  by (auto simp: getUint8_def getBytes_def byteLength_def slice_def Let_def
      hd_drop_conv_nth nth_via_drop take_Suc_conv_app_nth)

lemma getUint32_le_eq:
  "getUint32 dv off True =
     (let p = byteOffset dv + off in
      if p + 4 \<le> length (buffer dv)
      then Inr (int (le32 (buffer dv ! p) (buffer dv ! (p + 1)) (buffer dv ! (p + 2))
                      (buffer dv ! (p + 3))))
      else Inl OutOfBounds)"
  by (auto simp: getUint32_def getInt32_def getBytes_le Let_def unat_cat32 [symmetric])

subsection \<open>Detection\<close>

lemma isBinary_scan_eq:
  "byteOffset reader = 0 \<Longrightarrow> fileLength = length (buffer reader) \<Longrightarrow>
   isBinary_scan reader fileLength index
     = Inr (\<exists>i. index \<le> i \<and> i < fileLength \<and> 127 < unat (buffer reader ! i))"
proof (induction reader fileLength index rule: isBinary_scan.induct)
  case (1 reader fileLength index)
  show ?case
  proof (cases "index < fileLength")
    case False
    then show ?thesis by (subst isBinary_scan.simps) auto
  next
    case True
    show ?thesis
    proof (cases "127 < unat (buffer reader ! index)")
      case hi: True
      with True 1(2,3) show ?thesis
        by (subst isBinary_scan.simps) (auto simp: getUint8_eq)
    next
      case lo: False
      have "isBinary_scan reader fileLength (index + 1)
        = Inr (\<exists>i. index + 1 \<le> i \<and> i < fileLength \<and> 127 < unat (buffer reader ! i))"
        using 1(1) [of "unat (buffer reader ! index)"] True lo 1(2,3)
        by (simp add: getUint8_eq)
      moreover have "(\<exists>i. index + 1 \<le> i \<and> i < fileLength \<and> 127 < unat (buffer reader ! i))
         = (\<exists>i. index \<le> i \<and> i < fileLength \<and> 127 < unat (buffer reader ! i))"
        using lo by (metis Suc_eq_plus1 Suc_leI le_neq_implies_less Suc_leD)
      ultimately show ?thesis
        using True lo 1(2,3)
        by (subst isBinary_scan.simps) (simp add: getUint8_eq)
    qed
  qed
qed

lemma isBinary_eq:
  "isBinary buf =
     (if length buf < 84 then Inl OutOfBounds
      else Inr (length buf = 84 + 50 * triangleCount buf \<or> (\<exists>b \<in> set buf. 127 < unat b)))"
proof (cases "length buf < 84")
  case True
  then show ?thesis by (simp add: isBinary_def getUint32_le_eq)
next
  case False
  have scan: "isBinary_scan \<lparr>buffer = buf, byteOffset = 0\<rparr> (length buf) 0
      = Inr (\<exists>b \<in> set buf. 127 < unat b)"
    by (subst isBinary_scan_eq) (auto simp: in_set_conv_nth intro: bexI [OF _ nth_mem])
  from False show ?thesis
    by (auto simp: isBinary_def getUint32_le_eq byteLength_def triangleCount_def scan Let_def)
qed

text \<open>
  Claim C1, as the code has it. Reading the triangle count at offset 80 needs 84 bytes:
  a shorter buffer is not classified at all, the read is out of bounds. A buffer of at
  least 84 bytes is classified as binary exactly when its length is 84 + 50 * n, for n the
  little-endian unsigned 32-bit value at offset 80, or that size check fails and some byte
  is above 127; otherwise it is classified as ASCII. A buffer of exactly 84 + 50 * n bytes
  is binary, and for n at least 1 the same buffer without its last byte fails the size
  check and is classified by the byte scan alone.
\<close>

theorem isBinary_size_check_then_scan:
  "isBinary buf =
     (if length buf < 84 then Inl OutOfBounds
      else Inr (length buf = 84 + 50 * triangleCount buf
                \<or> (length buf \<noteq> 84 + 50 * triangleCount buf \<and> (\<exists>b \<in> set buf. 127 < unat b))))
   \<and> (length buf = 84 + 50 * triangleCount buf \<and> 1 \<le> triangleCount buf \<longrightarrow>
        isBinary buf = Inr True
        \<and> isBinary (butlast buf) = Inr (\<exists>b \<in> set (butlast buf). 127 < unat b))"
proof (intro conjI impI)
  show "isBinary buf =
     (if length buf < 84 then Inl OutOfBounds
      else Inr (length buf = 84 + 50 * triangleCount buf
                \<or> (length buf \<noteq> 84 + 50 * triangleCount buf \<and> (\<exists>b \<in> set buf. 127 < unat b))))"
    by (auto simp: isBinary_eq)
next
  assume a: "length buf = 84 + 50 * triangleCount buf \<and> 1 \<le> triangleCount buf"
  then show "isBinary buf = Inr True" by (simp add: isBinary_eq)
next
  assume a: "length buf = 84 + 50 * triangleCount buf \<and> 1 \<le> triangleCount buf"
  then have len: "length (butlast buf) = 83 + 50 * triangleCount buf" by simp
  with a have long: "84 < length (butlast buf)" by simp
  then have "triangleCount (butlast buf) = triangleCount buf"
    by (simp add: triangleCount_def nth_butlast)
  with len long show "isBinary (butlast buf) = Inr (\<exists>b \<in> set (butlast buf). 127 < unat b)"
    by (simp add: isBinary_eq)
qed

theorem isBinary_size_check_then_scan_witness:
  "isBinary (replicate 80 0 @ [1, 0, 0, 0] @ replicate 50 0) = Inr True
   \<and> isBinary (butlast (replicate 80 0 @ [1, 0, 0, 0] @ replicate 50 0)) = Inr False"
  using isBinary_size_check_then_scan [of "replicate 80 0 @ [1, 0, 0, 0] @ replicate 50 0"]
  by (simp add: triangleCount_def le32_def nth_append butlast_conv_take)

text \<open>
  The claim as written covers every buffer. The empty binary file of 84 zero bytes
  (n = 0) is binary by size; truncated by one byte it does not reach the byte scan.
\<close>

theorem isBinary_short_buffer_counterexample:
  "isBinary (replicate 84 0) = Inr True \<and> isBinary (butlast (replicate 84 0)) = Inl OutOfBounds"
  by (simp add: isBinary_def getUint32_le_eq le32_def byteLength_def butlast_conv_take)

section \<open>PLY: the mesh assembler\<close>

text \<open>
  Claim C2. A face record whose index list is \<open>[i0, i1, i2, i3]\<close> appends exactly the
  two triangles \<open>(i0, i1, i3)\<close> and \<open>(i1, i2, i3)\<close>, in that order, and one whose
  list is \<open>[i0, i1, i2]\<close> appends exactly the triangle \<open>(i0, i1, i2)\<close>; nothing else
  of the mesh changes.
\<close>

theorem handleElement_face_triangulation:
  "(getProp element ''vertex_indices'' = Array [i0, i1, i2, i3] \<longrightarrow>
      handleElement geometry (Some ''face'') element
        = Inr (geometry\<lparr>faces := faces geometry @ [Face3 i0 i1 i3 [], Face3 i1 i2 i3 []]\<rparr>))
   \<and> (getProp element ''vertex_indices'' = Array [i0, i1, i2] \<longrightarrow>
      handleElement geometry (Some ''face'') element
        = Inr (geometry\<lparr>faces := faces geometry @ [Face3 i0 i1 i2 []]\<rparr>))"
  by (simp add: handleElement_def)

theorem handleElement_face_triangulation_witness:
  "handleElement new_Geometry (Some ''face'') (face_record [0, 1, 2, 3])
     = Inr (new_Geometry\<lparr>faces :=
         [Face3 (Number (Num 0)) (Number (Num 1)) (Number (Num 3)) [],
          Face3 (Number (Num 1)) (Number (Num 2)) (Number (Num 3)) []]\<rparr>)
   \<and> handleElement new_Geometry (Some ''face'') (face_record [0, 1, 2])
     = Inr (new_Geometry\<lparr>faces := [Face3 (Number (Num 0)) (Number (Num 1)) (Number (Num 2)) []]\<rparr>)"
  using handleElement_face_triangulation
     [of "face_record [0, 1, 2, 3]"
         "Number (Num 0)" "Number (Num 1)" "Number (Num 2)" "Number (Num 3)" new_Geometry]
    handleElement_face_triangulation
     [of "face_record [0, 1, 2]"
         "Number (Num 0)" "Number (Num 1)" "Number (Num 2)" "Number (Num 3)" new_Geometry]
  by (simp add: getProp_def new_Geometry_def face_record_def)

text \<open>
  Claim C4, as the code has it. A face record whose index list has a length other than
  3 or 4 raises nothing: no face is appended and the mesh is returned as it was.
\<close>

theorem handleElement_face_other_arity:
  "getProp element ''vertex_indices'' = Array vertex_indices \<Longrightarrow>
   length vertex_indices \<noteq> 3 \<Longrightarrow> length vertex_indices \<noteq> 4 \<Longrightarrow>
   handleElement geometry (Some ''face'') element = Inr geometry"
  by (simp add: handleElement_def)

theorem handleElement_face_other_arity_witness:
  "handleElement new_Geometry (Some ''face'') (face_record [0, 1, 2, 3, 4]) = Inr new_Geometry"
  using handleElement_face_other_arity
     [of "face_record [0, 1, 2, 3, 4]"
         "[Number (Num 0), Number (Num 1), Number (Num 2), Number (Num 3), Number (Num 4)]"
         new_Geometry]
  by (simp add: getProp_def face_record_def)

text \<open>
  The claim as written asks for an error. Decoding a file whose second face has five
  indices succeeds; the mesh has the triangle of the first face and the two of the third.
\<close>

theorem parseASCII_five_indices_counterexample:
  "parseASCII Map.empty ply_faces =
     Inr \<lparr>vertices = [Vector3 (Number (Num 0)) (Number (Num 0)) (Number (Num 0))],
          colors = [],
          faces = [Face3 (Number (Num 0)) (Number (Num 1)) (Number (Num 2)) [],
                   Face3 (Number (Num 0)) (Number (Num 1)) (Number (Num 3)) [],
                   Face3 (Number (Num 1)) (Number (Num 2)) (Number (Num 3)) []],
          useColor = False, elementsNeedUpdate = False\<rparr>"
  by code_simp

text \<open>
  Claim C10. A vertex record always appends one position, built from the record's
  \<open>x\<close>, \<open>y\<close> and \<open>z\<close> in that order and from nothing else; the faces are untouched.
\<close>

theorem handleElement_vertex_position:
  "\<exists>g. handleElement geometry (Some ''vertex'') element = Inr g
       \<and> vertices g = vertices geometry @
            [Vector3 (getProp element ''x'') (getProp element ''y'') (getProp element ''z'')]
       \<and> faces g = faces geometry"
  by (simp add: handleElement_def Let_def)

theorem handleElement_vertex_position_witness:
  "\<exists>g. handleElement new_Geometry (Some ''vertex'') plain_vertex = Inr g
       \<and> vertices g = [Vector3 (Number (Num 1)) (Number (Num 2)) (Number (Num 3))]
       \<and> faces g = []"
  using handleElement_vertex_position [of new_Geometry plain_vertex]
  by (simp add: getProp_def plain_vertex_def new_Geometry_def)

subsection \<open>Color presence\<close>

lemma handleElement_colors:
  "handleElement geometry elementName element = Inr g \<Longrightarrow>
     useColor g = (useColor geometry \<or> (elementName = Some ''vertex'' \<and> hasRGB element))
   \<and> colors g = colors geometry @
        (if elementName = Some ''vertex'' \<and> hasRGB element then [colorOf element] else [])"
  by (auto simp: handleElement_def Let_def hasRGB_def colorOf_def split: if_splits jsval.splits)

text \<open>
  Claim C5, as the code has it. Over the records of a decode, the mesh is marked colored
  exactly when at least one vertex record carries all of \<open>red\<close>, \<open>green\<close> and
  \<open>blue\<close> (or the flag was set before), and the color array gains one color for each
  such record, in order. A vertex record without a channel adds no color and does not
  clear the flag.
\<close>

theorem handleElements_colors:
  "handleElements geometry rs = Inr g \<Longrightarrow>
     useColor g = (useColor geometry \<or> (\<exists>element. (Some ''vertex'', element) \<in> set rs \<and> hasRGB element))
   \<and> colors g = colors geometry @
        map (colorOf \<circ> snd) (filter (\<lambda>(n, element). n = Some ''vertex'' \<and> hasRGB element) rs)"
proof (induction rs arbitrary: geometry)
  case Nil
  then show ?case by simp
next
  case (Cons r rs)
  obtain n element where r: "r = (n, element)" by (cases r)
  from Cons.prems r obtain g1 where
    g1: "handleElement geometry n element = Inr g1" and rest: "handleElements g1 rs = Inr g"
    by (auto split: sum.splits)
  from handleElement_colors [OF g1] Cons.IH [OF rest] r show ?case
    by auto
qed


theorem handleElements_colors_witness:
  "handleElements new_Geometry [(Some ''vertex'', red_vertex), (Some ''vertex'', plain_vertex)]
     = Inr \<lparr>vertices = [Vector3 (Number (Num 0)) (Number (Num 0)) (Number (Num 0)),
                        Vector3 (Number (Num 1)) (Number (Num 2)) (Number (Num 3))],
            colors = [Color (Num 1) (Num 0) (Num 0)], faces = [],
            useColor = True, elementsNeedUpdate = False\<rparr>
   \<and> hasRGB red_vertex \<and> \<not> hasRGB plain_vertex"
proof -
  have h: "handleElements new_Geometry [(Some ''vertex'', red_vertex), (Some ''vertex'', plain_vertex)]
     = Inr \<lparr>vertices = [Vector3 (Number (Num 0)) (Number (Num 0)) (Number (Num 0)),
                        Vector3 (Number (Num 1)) (Number (Num 2)) (Number (Num 3))],
            colors = [Color (Num 1) (Num 0) (Num 0)], faces = [],
            useColor = True, elementsNeedUpdate = False\<rparr>"
    by (simp add: handleElement_def hasProp_def getProp_def red_vertex_def plain_vertex_def
        new_Geometry_def Let_def double_0 double_1)
  from handleElements_colors [OF h] h show ?thesis
    by (auto simp: new_Geometry_def hasRGB_def hasProp_def plain_vertex_def red_vertex_def)
qed

text \<open>
  The claim as written: colored only if every vertex record has the channels. A file that
  declares the vertex element twice, with the channels the first time only, decodes to a
  mesh marked colored, with two vertices and one color.
\<close>

theorem parseASCII_mixed_color_counterexample:
  "parseASCII Map.empty ply_mixed_color =
     Inr \<lparr>vertices = [Vector3 (Number (Num 0)) (Number (Num 0)) (Number (Num 0)),
                      Vector3 (Number (Num 1)) (Number (Num 1)) (Number (Num 1))],
          colors = [Color (Num 1) (Num 0) (Num 0)], faces = [],
          useColor = True, elementsNeedUpdate = True\<rparr>"
  by code_simp

section \<open>PLY: the header\<close>

lemma split_ws_from_nonempty: "split_ws_from gap s \<noteq> []"
  by (induction s arbitrary: gap) (auto split: list.splits)

lemma parseHeader_lines_comments:
  "parseHeader_lines m ls h ce = Inr (h', ce') \<Longrightarrow>
   comments h' = comments h @ map commentOf (filter isCommentLine ls)"
proof (induction ls arbitrary: h ce)
  case Nil
  then show ?case by simp
next
  case (Cons l ls)
  show ?case
  proof (cases "trim l = []")
    case True
    with Cons show ?thesis by (simp add: isCommentLine_def)
  next
    case False
    obtain t ts where sp: "split_ws (trim l) = t # ts"
      using split_ws_from_nonempty [of False "trim l"]
      by (cases "split_ws (trim l)") (auto simp: split_ws_def)
    show ?thesis
    proof (cases "t = ''comment''")
      case True
      with Cons.prems False sp
      have "parseHeader_lines m ls (h\<lparr>comments := comments h @ [join '' '' ts]\<rparr>) ce = Inr (h', ce')"
        by (simp add: shift_def)
      from Cons.IH [OF this] True False sp show ?thesis
        by (simp add: isCommentLine_def commentOf_def shift_def)
    next
      case nc: False
      have ncl: "\<not> isCommentLine l" using nc sp by (simp add: isCommentLine_def shift_def)
      from Cons.prems False sp nc
      obtain h1 ce1 where "parseHeader_lines m ls h1 ce1 = Inr (h', ce')" and "comments h1 = comments h"
        by (auto simp: shift_def split: if_splits option.splits)
      from Cons.IH [OF this(1)] this(2) ncl show ?thesis by simp
    qed
  qed
qed

text \<open>
  Claim C9, as the code has it. The comments of a parsed header are, in the order of the
  lines and with repetitions kept, what each \<open>comment\<close> line contributes: its tokens
  after the directive, joined by single spaces. Runs of whitespace inside a comment are
  therefore not kept as written.
\<close>

theorem parseHeader_comments:
  "parseHeader propertyNameMapping data = Inr header \<Longrightarrow>
   comments header = map commentOf (filter isCommentLine (split_lines (headerText data)))"
proof -
  assume a: "parseHeader propertyNameMapping data = Inr header"
  define h0 where "h0 = \<lparr>comments = [], elements = [],
      headerLength = (case patternHeader_exec data of None \<Rightarrow> 0 | Some (matched, captured) \<Rightarrow> length matched),
      format = None, version = None\<rparr>"
  from a obtain h1 ce1 where
    l: "parseHeader_lines propertyNameMapping (split_lines (headerText data)) h0 None = Inr (h1, ce1)"
    and c: "comments header = comments h1"
    by (auto simp: parseHeader_def headerText_def h0_def Let_def split: sum.splits option.splits prod.splits)
  from parseHeader_lines_comments [OF l] c show ?thesis by (simp add: h0_def)
qed


theorem parseHeader_comments_witness:
  "map commentOf (filter isCommentLine (split_lines (headerText ply_short_body)))
     = [''made by hand'', ''made by hand'']"
proof -
  have h: "parseHeader Map.empty ply_short_body = Inr
     \<lparr>comments = [''made by hand'', ''made by hand''],
      elements =
        [\<lparr>name = Some ''vertex'', count = Num 2,
          properties =
            [\<lparr>ptype = Some ''float'', pname = Some ''x'', countType = None, itemType = None\<rparr>,
             \<lparr>ptype = Some ''float'', pname = Some ''y'', countType = None, itemType = None\<rparr>,
             \<lparr>ptype = Some ''float'', pname = Some ''z'', countType = None, itemType = None\<rparr>]\<rparr>,
         \<lparr>name = Some ''face'', count = Num 1,
          properties =
            [\<lparr>ptype = Some ''list'', pname = Some ''vertex_indices'',
              countType = Some ''uchar'', itemType = Some ''int''\<rparr>]\<rparr>],
      headerLength = 202, format = Some ''ascii'', version = Some ''1.0''\<rparr>"
    by code_simp
  from parseHeader_comments [OF h] show ?thesis by simp
qed

text \<open>
  The claim as written keeps the interior whitespace. The comment lines of this header
  read \<open>made\<close>, two spaces, \<open>by\<close>, three spaces, \<open>hand\<close>.
\<close>

theorem parseHeader_comment_whitespace_counterexample:
  "map_sum id comments (parseHeader Map.empty ply_short_body)
     = Inr [''made by hand'', ''made by hand'']
   \<and> ''made by hand'' \<noteq> ''made  by   hand''"
  by code_simp

section \<open>PLY: the ASCII body\<close>

lemma handleElement_appends:
  "handleElement geometry n element = Inr g \<Longrightarrow>
   (\<exists>vs. vertices g = vertices geometry @ vs) \<and> (\<exists>fs. faces g = faces geometry @ fs)"
  by (auto simp: handleElement_def Let_def split: if_splits jsval.splits)

lemma parseASCII_line_appends:
  "parseASCII_line header line cur cnt geometry = Inr (cur1, cnt1, g) \<Longrightarrow>
   (\<exists>vs. vertices g = vertices geometry @ vs) \<and> (\<exists>fs. faces g = faces geometry @ fs)"
  by (auto simp: parseASCII_line_def Let_def dest: handleElement_appends
      split: option.splits sum.splits if_splits)

lemma parseASCII_lines_appends:
  "parseASCII_lines header ls cur cnt geometry = Inr g \<Longrightarrow>
   (\<exists>vs. vertices g = vertices geometry @ vs) \<and> (\<exists>fs. faces g = faces geometry @ fs)"
proof (induction ls arbitrary: cur cnt geometry)
  case Nil
  then show ?case by simp
next
  case (Cons l ls)
  show ?case
  proof (cases "trim l = []")
    case True
    with Cons show ?thesis by simp
  next
    case False
    with Cons.prems obtain cur1 cnt1 g1 where
      h: "parseASCII_line header (trim l) cur cnt geometry = Inr (cur1, cnt1, g1)" and
      r: "parseASCII_lines header ls cur1 cnt1 g1 = Inr g"
      by (auto simp: Let_def split: sum.splits)
    from parseASCII_line_appends [OF h] Cons.IH [OF r] show ?thesis
      by auto
  qed
qed

lemma parseASCII_lines_append:
  "parseASCII_lines header (xs @ ys) cur cnt geometry = Inr g \<Longrightarrow>
   \<exists>g1 cur1 cnt1. parseASCII_lines header xs cur cnt geometry = Inr g1
      \<and> parseASCII_lines header ys cur1 cnt1 g1 = Inr g"
proof (induction xs arbitrary: cur cnt geometry)
  case Nil
  then show ?case by auto
next
  case (Cons l ls)
  show ?case
  proof (cases "trim l = []")
    case True
    with Cons show ?thesis by simp
  next
    case False
    with Cons.prems obtain cur1 cnt1 g1 where
      h: "parseASCII_line header (trim l) cur cnt geometry = Inr (cur1, cnt1, g1)" and
      r: "parseASCII_lines header (ls @ ys) cur1 cnt1 g1 = Inr g"
      by (auto simp: Let_def split: sum.splits)
    from Cons.IH [OF r] h False show ?thesis by simp
  qed
qed

text \<open>
  Claim C3, as the code has it. The loop ends with the lines and compares nothing with
  the declared counts. Whenever a body decodes, each of its truncations at a line
  boundary decodes too, without an error, to a mesh whose vertices and faces are an
  initial part of those of the whole body.
\<close>

theorem parseASCII_lines_truncated:
  "parseASCII_lines header lines 0 0 geometry = Inr g \<Longrightarrow>
   \<exists>g'. parseASCII_lines header (take k lines) 0 0 geometry = Inr g'
       \<and> (\<exists>vs. vertices g = vertices g' @ vs) \<and> (\<exists>fs. faces g = faces g' @ fs)"
proof -
  assume a: "parseASCII_lines header lines 0 0 geometry = Inr g"
  then have "parseASCII_lines header (take k lines @ drop k lines) 0 0 geometry = Inr g"
    by simp
  from parseASCII_lines_append [OF this] obtain g1 cur1 cnt1 where
    p: "parseASCII_lines header (take k lines) 0 0 geometry = Inr g1" and
    q: "parseASCII_lines header (drop k lines) cur1 cnt1 g1 = Inr g"
    by blast
  from parseASCII_lines_appends [OF q] p show ?thesis by simp
qed


theorem parseASCII_lines_truncated_witness:
  "\<exists>g'. parseASCII_lines vertex_face_header (take 2 [''0 0 0'', ''3 0 1 2'', ''4 0 1 2 3'']) 0 0
           new_Geometry = Inr g'
       \<and> (\<exists>vs. [Vector3 (Number (Num 0)) (Number (Num 0)) (Number (Num 0))] = vertices g' @ vs)
       \<and> (\<exists>fs. [Face3 (Number (Num 0)) (Number (Num 1)) (Number (Num 2)) [],
                   Face3 (Number (Num 0)) (Number (Num 1)) (Number (Num 3)) [],
                   Face3 (Number (Num 1)) (Number (Num 2)) (Number (Num 3)) []] = faces g' @ fs)"
proof -
  have h: "parseASCII_lines vertex_face_header [''0 0 0'', ''3 0 1 2'', ''4 0 1 2 3''] 0 0
             new_Geometry =
     Inr \<lparr>vertices = [Vector3 (Number (Num 0)) (Number (Num 0)) (Number (Num 0))],
          colors = [],
          faces = [Face3 (Number (Num 0)) (Number (Num 1)) (Number (Num 2)) [],
                   Face3 (Number (Num 0)) (Number (Num 1)) (Number (Num 3)) [],
                   Face3 (Number (Num 1)) (Number (Num 2)) (Number (Num 3)) []],
          useColor = False, elementsNeedUpdate = False\<rparr>"
    by code_simp
  from parseASCII_lines_truncated [OF h, of 2] show ?thesis by simp
qed

text \<open>
  The claim as written asks for an error. This file declares two vertices and a face and
  has one body line; decoding returns the mesh of that one vertex.
\<close>

theorem parseASCII_short_body_counterexample:
  "parseASCII Map.empty ply_short_body =
     Inr \<lparr>vertices = [Vector3 (Number (Num (1 / 2))) (Number (Num (- 2))) (Number (Num 10))],
          colors = [], faces = [], useColor = False, elementsNeedUpdate = False\<rparr>"
  by code_simp

section \<open>The view's float reads\<close>

subsection \<open>Bytes as words and as numbers\<close>

lemma byte_bit: "bit (b::byte) n \<Longrightarrow> n < 8"
  by (drule bit_imp_le_length) simp

lemma lew_Cons:
  "(little_endian_word (b # bs) :: 'a::len word) = push_bit 8 (little_endian_word bs) OR ucast b"
  by (simp add: little_endian_word_def)

lemma bit_little_endian_word:
  "bit (little_endian_word bs :: 'a::len word) n =
     (n < LENGTH('a) \<and> n div 8 < length bs \<and> bit (bs ! (n div 8)) (n mod 8))"
proof (induction bs arbitrary: n)
  case Nil
  show ?case by (simp add: little_endian_word_def)
next
  case (Cons b bs)
  show ?case
  proof (cases "n < 8")
    case True
    then show ?thesis
      by (auto simp: lew_Cons bit_or_iff bit_push_bit_iff bit_ucast_iff dest: bit_imp_le_length)
  next
    case False
    then have d: "n div 8 = Suc ((n - 8) div 8)" and m: "n mod 8 = (n - 8) mod 8"
      by (simp_all add: le_div_geq le_mod_geq)
    have nb: "\<not> bit b n" using byte_bit [of b n] False by auto
    from False show ?thesis
      by (auto simp: lew_Cons bit_or_iff bit_push_bit_iff bit_ucast_iff Cons.IH d m nb
          dest: bit_imp_le_length)
  qed
qed


lemma little_endian_nat_lt: "little_endian_nat bs < 2 ^ (8 * length bs)"
proof (induction bs)
  case Nil
  show ?case by (simp add: little_endian_nat_def)
next
  case (Cons b bs)
  have "little_endian_nat (b # bs) = unat b + 256 * little_endian_nat bs"
    by (simp add: little_endian_nat_def)
  moreover have "unat b + 256 * little_endian_nat bs < 256 * (little_endian_nat bs + 1)"
    using unat_byte_lt [of b] by simp
  moreover have "256 * (little_endian_nat bs + 1) \<le> 256 * 2 ^ (8 * length bs)"
    using Cons.IH by (intro mult_le_mono2) simp
  ultimately show ?case by (simp add: power_add)
qed

lemma unat_little_endian_word:
  "8 * length bs \<le> LENGTH('a) \<Longrightarrow>
   unat (little_endian_word bs :: 'a::len word) = little_endian_nat bs"
proof (induction bs)
  case Nil
  show ?case by (simp add: little_endian_word_def little_endian_nat_def)
next
  case (Cons b bs)
  then have ih: "unat (little_endian_word bs :: 'a word) = little_endian_nat bs"
    and len: "8 * length bs + 8 \<le> LENGTH('a)" by simp_all
  have "(2::nat) ^ 8 \<le> 2 ^ LENGTH('a)"
    using len by (intro power_increasing) simp_all
  then have ub: "unat (ucast b :: 'a word) = unat b"
    using unat_byte_lt [of b]
    by (simp add: unsigned_ucast_eq take_bit_nat_eq_self)
  have "little_endian_nat bs * 2 ^ 8 < 2 ^ (8 * length bs) * 2 ^ 8"
    using little_endian_nat_lt [of bs] by simp
  also have "\<dots> = 2 ^ (8 * length bs + 8)" by (simp add: power_add)
  also have "\<dots> \<le> 2 ^ LENGTH('a)"
    using len by (intro power_increasing) simp_all
  finally have "push_bit 8 (little_endian_nat bs) < 2 ^ LENGTH('a)"
    by (simp add: push_bit_eq_mult)
  then have up: "unat (push_bit 8 (little_endian_word bs :: 'a word)) = push_bit 8 (little_endian_nat bs)"
    by (simp add: unsigned_push_bit_eq ih take_bit_nat_eq_self)
  have "unat (little_endian_word (b # bs) :: 'a word)
      = push_bit 8 (little_endian_nat bs) OR unat b"
    by (simp add: lew_Cons unsigned_or_eq up ub)
  also have "\<dots> = little_endian_nat bs * 2 ^ 8 + unat b"
    using unat_byte_lt [of b] by (intro or_push_add) simp
  finally show ?case by (simp add: little_endian_nat_def)
qed


lemma div8_cases: "8 * q \<le> n \<Longrightarrow> n < 8 * q + 8 \<Longrightarrow> n div 8 = q \<and> n mod 8 = n - 8 * q"
  for n q :: nat
  by (auto simp: div_nat_eqI mod_nat_eqI)

lemma bit_lew4:
  "bit (little_endian_word [b0, b1, b2, b3] :: 32 word) n =
     (if n < 8 then bit b0 n else if n < 16 then bit b1 (n - 8)
      else if n < 24 then bit b2 (n - 16) else bit b3 (n - 24))"
proof -
  consider "n < 8" | "8 \<le> n" "n < 16" | "16 \<le> n" "n < 24" | "24 \<le> n" "n < 32" | "32 \<le> n"
    by linarith
  then show ?thesis
  proof cases
    case 1
    then show ?thesis using div8_cases [of 0 n] by (simp add: bit_little_endian_word)
  next
    case 2
    then show ?thesis using div8_cases [of 1 n] by (simp add: bit_little_endian_word)
  next
    case 3
    then show ?thesis using div8_cases [of 2 n] by (simp add: bit_little_endian_word)
  next
    case 4
    then show ?thesis using div8_cases [of 3 n] by (simp add: bit_little_endian_word)
  next
    case 5
    then show ?thesis using byte_bit [of b3 "n - 24"] by (auto simp: bit_little_endian_word)
  qed
qed

lemma bit_lew8:
  "bit (little_endian_word [b0, b1, b2, b3, b4, b5, b6, b7] :: 64 word) n =
     (if n < 8 then bit b0 n else if n < 16 then bit b1 (n - 8)
      else if n < 24 then bit b2 (n - 16) else if n < 32 then bit b3 (n - 24)
      else if n < 40 then bit b4 (n - 32) else if n < 48 then bit b5 (n - 40)
      else if n < 56 then bit b6 (n - 48) else bit b7 (n - 56))"
proof -
  consider "n < 8" | "8 \<le> n" "n < 16" | "16 \<le> n" "n < 24" | "24 \<le> n" "n < 32"
    | "32 \<le> n" "n < 40" | "40 \<le> n" "n < 48" | "48 \<le> n" "n < 56" | "56 \<le> n" "n < 64"
    | "64 \<le> n"
    by linarith
  then show ?thesis
  proof cases
    case 1
    then show ?thesis using div8_cases [of 0 n] by (simp add: bit_little_endian_word)
  next
    case 2
    then show ?thesis using div8_cases [of 1 n] by (simp add: bit_little_endian_word)
  next
    case 3
    then show ?thesis using div8_cases [of 2 n] by (simp add: bit_little_endian_word)
  next
    case 4
    then show ?thesis using div8_cases [of 3 n] by (simp add: bit_little_endian_word)
  next
    case 5
    then show ?thesis using div8_cases [of 4 n] by (simp add: bit_little_endian_word)
  next
    case 6
    then show ?thesis using div8_cases [of 5 n] by (simp add: bit_little_endian_word)
  next
    case 7
    then show ?thesis using div8_cases [of 6 n] by (simp add: bit_little_endian_word)
  next
    case 8
    then show ?thesis using div8_cases [of 7 n] by (simp add: bit_little_endian_word)
  next
    case 9
    then show ?thesis using byte_bit [of b7 "n - 56"] by (auto simp: bit_little_endian_word)
  qed
qed


subsection \<open>The fields of a float\<close>

lemma sint_eq_uint32: "\<not> bit (w :: 32 word) 31 \<Longrightarrow> sint w = uint w"
proof -
  assume a: "\<not> bit w 31"
  then have "\<not> bit (uint w) 31" by (simp add: bit_uint_iff)
  then have "signed_take_bit 31 (uint w) = take_bit 31 (uint w)"
    by (rule signed_take_bit_eq_if_positive)
  moreover have "take_bit 31 (uint w) = uint w"
  proof (rule bit_eqI)
    fix n
    have "bit w n \<Longrightarrow> n < 31"
    proof -
      assume b: "bit w n"
      then have "n < 32" by (auto dest: bit_imp_le_length)
      moreover have "n \<noteq> 31" using a b by auto
      ultimately show ?thesis by simp
    qed
    then show "bit (take_bit 31 (uint w)) n = bit (uint w) n"
      by (auto simp: bit_simps bit_uint_iff)
  qed
  ultimately show ?thesis by (simp add: sint_uint)
qed

lemma and_7f: "(x :: 32 word) AND 0x7f = take_bit 7 x"
  by (simp add: take_bit_eq_mask mask_eq_exp_minus_1)

lemma and_ff: "(x :: 32 word) AND 0xff = take_bit 8 x"
  by (simp add: take_bit_eq_mask mask_eq_exp_minus_1)

lemma and_0f: "(x :: 32 word) AND 0x0f = take_bit 4 x"
  by (simp add: take_bit_eq_mask mask_eq_exp_minus_1)

lemma bit_int32: "bit (int32 b) n = bit b n"
  using byte_bit [of b n] by (auto simp: int32_def bit_simps)

text \<open>The sign: bit 7 of the most significant byte.\<close>

lemma sign_byte: "sint (drop_bit 7 (int32 b)) = (if bit b 7 then 1 else 0)"
proof -
  have "drop_bit 7 (int32 b) = (if bit b 7 then 1 else 0)"
  proof (rule bit_word_eqI)
    fix n assume "n < LENGTH(32)"
    show "bit (drop_bit 7 (int32 b)) n = bit (if bit b 7 then 1 else 0 :: 32 word) n"
      using byte_bit [of b "7 + n"]
      by (cases "n = 0") (auto simp: bit_drop_bit_eq bit_int32 bit_1_iff)
  qed
  then show ?thesis by simp
qed

lemma uint_eq_of_bits:
  fixes x :: "'a::len word" and y :: "'b::len word"
  assumes "\<And>n. bit x n = bit y n"
  shows "uint x = uint y"
proof (rule bit_eqI)
  fix n
  have "bit y n \<Longrightarrow> n < LENGTH('a)"
    using assms [of n] by (auto dest: bit_imp_le_length)
  moreover have "bit y n \<Longrightarrow> n < LENGTH('b)"
    by (auto dest: bit_imp_le_length)
  ultimately show "bit (uint x) n = bit (uint y) n"
    by (auto simp: bit_uint_iff assms)
qed

lemma exponent32:
  "sint ((push_bit 1 (int32 b3) AND 0xff) OR drop_bit 7 (int32 b2))
     = int (unat (take_bit 8 (drop_bit 23 (little_endian_word [b0, b1, b2, b3] :: 32 word))))"
proof -
  let ?x = "(push_bit 1 (int32 b3) AND 0xff) OR drop_bit 7 (int32 b2)"
  let ?y = "take_bit 8 (drop_bit 23 (little_endian_word [b0, b1, b2, b3] :: 32 word))"
  have l: "bit ?x n = ((1 \<le> n \<and> n < 8 \<and> bit b3 (n - 1)) \<or> bit b2 (n + 7))" for n
    unfolding and_ff
    by (simp only: bit_or_iff bit_take_bit_iff bit_push_bit_iff bit_drop_bit_eq bit_int32 comp_def)
       (auto simp: add.commute dest: byte_bit)
  have d: "n < 8 \<Longrightarrow> (23 + n) div 8 = (if n = 0 then 2 else 3) \<and> (23 + n) mod 8 = (if n = 0 then 7 else n - 1)" for n :: nat
    by (cases "n = 0") (simp, presburger)
  have r: "bit ?y n = (n < 8 \<and> (if n = 0 then bit b2 7 else bit b3 (n - 1)))" for n
    using d [of n]
    by (auto simp: bit_take_bit_iff bit_drop_bit_eq bit_little_endian_word)
  have "?x = ?y"
  proof (rule bit_word_eqI)
    fix n
    show "bit ?x n = bit ?y n"
      unfolding l r using byte_bit [of b2 "n + 7"] by (cases "n = 0") auto
  qed
  moreover have "\<not> bit ?y 31" by (simp add: bit_simps)
  ultimately show ?thesis by (simp add: sint_eq_uint32)
qed

lemma mantissa32:
  "sint (push_bit 16 (int32 b2 AND 0x7f) OR push_bit 8 (int32 b1) OR int32 b0)
     = int (unat (take_bit 23 (little_endian_word [b0, b1, b2, b3] :: 32 word)))"
proof -
  let ?x = "push_bit 16 (int32 b2 AND 0x7f) OR push_bit 8 (int32 b1) OR int32 b0"
  let ?y = "take_bit 23 (little_endian_word [b0, b1, b2, b3] :: 32 word)"
  have l: "bit ?x n = ((16 \<le> n \<and> n < 23 \<and> bit b2 (n - 16)) \<or> (8 \<le> n \<and> bit b1 (n - 8)) \<or> bit b0 n)" for n
    unfolding and_7f
    by (simp only: bit_or_iff bit_take_bit_iff bit_push_bit_iff bit_int32 comp_def)
       (auto dest: byte_bit)
  have "?x = ?y"
  proof (rule bit_word_eqI)
    fix n
    show "bit ?x n = bit ?y n"
      unfolding l bit_take_bit_iff bit_lew4
      using byte_bit [of b0 n] byte_bit [of b1 "n - 8"] by auto
  qed
  moreover have "\<not> bit ?y 31" by (simp add: bit_simps)
  ultimately show ?thesis by (simp add: sint_eq_uint32)
qed

lemma unat_take_bit_lt: "unat (take_bit n (w :: 'a::len word)) < 2 ^ n"
  by (simp add: unsigned_take_bit_eq)

lemma pow2_m149: "pow2 (- 149) = 1 / 2 ^ 149" by (simp add: pow2_def)
lemma pow2_m23: "pow2 (- 23) = 1 / 2 ^ 23" by (simp add: pow2_def)
lemma pow2_m126: "pow2 (- 126) = 1 / 2 ^ 126" by (simp add: pow2_def)

lemma ieee32_arith:
  "e < 256 \<Longrightarrow>
   (let sign = 1 - (2 * (if s then 1 else 0));
        exponent = int e - 127;
        mantissa = int f
    in (if exponent = 128 then (if mantissa \<noteq> 0 then NaN else times_Infinity sign)
        else if exponent = - 127 then Num (of_int sign * of_int mantissa * pow2 (- 126 - 23))
        else Num (of_int sign * (1 + of_int mantissa * pow2 (- 23)) * pow2 exponent)))
   = ieee754 8 23 s e f"
proof -
  assume e: "e < 256"
  have c1: "(int e - 127 = 128) = (e = 255)" by auto
  have c2: "(int e - 127 = - 127) = (e = 0)" by auto
  show ?thesis
    unfolding Let_def ieee754_def c1 c2
    by (cases s) (simp_all add: times_Infinity_def pow2_m23 pow2_m149 pow2_m126)
qed

lemma exponent64:
  "sint (push_bit 3 (push_bit 1 (int32 b7) AND 0xff) OR drop_bit 4 (int32 b6))
     = int (unat (take_bit 11 (drop_bit 52
         (little_endian_word [b0, b1, b2, b3, b4, b5, b6, b7] :: 64 word))))"
proof -
  let ?x = "push_bit 3 (push_bit 1 (int32 b7) AND 0xff) OR drop_bit 4 (int32 b6)"
  let ?y = "take_bit 11 (drop_bit 52 (little_endian_word [b0, b1, b2, b3, b4, b5, b6, b7] :: 64 word))"
  have l: "bit ?x n = ((4 \<le> n \<and> n < 11 \<and> bit b7 (n - 4)) \<or> bit b6 (n + 4))" for n
    unfolding and_ff
    by (simp only: bit_or_iff bit_take_bit_iff bit_push_bit_iff bit_drop_bit_eq bit_int32 comp_def)
       (auto simp: add.commute dest: byte_bit)
  have r: "bit ?y n = (n < 11 \<and> (if n < 4 then bit b6 (n + 4) else bit b7 (n - 4)))" for n
    unfolding bit_take_bit_iff bit_drop_bit_eq comp_def bit_lew8
    by (auto simp: add.commute)
  have "bit ?x n = bit ?y n" for n
    unfolding l r using byte_bit [of b6 "n + 4"] by auto
  then have "uint ?x = uint ?y" by (rule uint_eq_of_bits)
  moreover have "\<not> bit ?x 31"
    unfolding l using byte_bit [of b6 35] by auto
  ultimately show ?thesis by (simp add: sint_eq_uint32)
qed

lemma low_nibble:
  "sint (int32 b AND 0x0f) = uint (take_bit 4 b)"
proof -
  have "bit (take_bit 4 (int32 b)) n = bit (take_bit 4 b) n" for n
    by (simp add: bit_take_bit_iff bit_int32)
  then have "uint (take_bit 4 (int32 b)) = uint (take_bit 4 b)" by (rule uint_eq_of_bits)
  moreover have "\<not> bit (take_bit 4 (int32 b)) 31" by (simp add: bit_take_bit_iff)
  ultimately show ?thesis by (simp add: and_0f sint_eq_uint32)
qed

lemma mantissa64:
  "(sint (int32 b6 AND 0x0f) * 2 ^ 48) + (uint b5 * 2 ^ 40)
      + (uint b4 * 2 ^ 32) + (uint b3 * 2 ^ 24)
      + (uint b2 * 2 ^ 16) + (uint b1 * 2 ^ 8) + uint b0
     = int (unat (take_bit 52 (little_endian_word [b0, b1, b2, b3, b4, b5, b6, b7] :: 64 word)))"
proof -
  let ?z = "little_endian_word [b0, b1, b2, b3, b4, b5, take_bit 4 b6] :: 64 word"
  have z8: "?z = little_endian_word [b0, b1, b2, b3, b4, b5, take_bit 4 b6, 0]"
    by (simp add: lew_Cons little_endian_word_def)
  have "take_bit 52 (little_endian_word [b0, b1, b2, b3, b4, b5, b6, b7] :: 64 word) = ?z"
  proof (rule bit_word_eqI)
    fix n
    show "bit (take_bit 52 (little_endian_word [b0, b1, b2, b3, b4, b5, b6, b7] :: 64 word)) n
        = bit ?z n"
      unfolding z8 bit_take_bit_iff bit_lew8
      by (auto simp: bit_take_bit_iff)
  qed
  moreover have "unat ?z = little_endian_nat [b0, b1, b2, b3, b4, b5, take_bit 4 b6]"
    by (rule unat_little_endian_word) simp
  ultimately show ?thesis
    by (simp add: little_endian_nat_def low_nibble)
qed


lemma pow2_m1074: "pow2 (- 1074) = 1 / 2 ^ 1074" by (simp add: pow2_def)
lemma pow2_m52: "pow2 (- 52) = 1 / 2 ^ 52" by (simp add: pow2_def)
lemma pow2_m1022: "pow2 (- 1022) = 1 / 2 ^ 1022" by (simp add: pow2_def)

lemma ieee64_arith:
  "e < 2048 \<Longrightarrow>
   (let sign = 1 - (2 * (if s then 1 else 0));
        exponent = int e - (sint (push_bit 10 (1 :: 32 word)) - 1);
        mantissa = int f
    in (if exponent = 1024 then (if mantissa \<noteq> 0 then NaN else times_Infinity sign)
        else if exponent = - 1023 then Num (of_int sign * of_int mantissa * pow2 (- 1022 - 52))
        else Num (of_int sign * (1 + of_int mantissa * pow2 (- 52)) * pow2 exponent)))
   = ieee754 11 52 s e f"
proof -
  assume e: "e < 2048"
  have b: "sint (push_bit 10 (1 :: 32 word)) - 1 = 1023" by simp
  have c1: "(int e - 1023 = 1024) = (e = 2047)" by auto
  have c2: "(int e - 1023 = - 1023) = (e = 0)" by auto
  show ?thesis
    unfolding Let_def ieee754_def b c1 c2
    by (cases s) (simp_all add: times_Infinity_def pow2_m52 pow2_m1074 pow2_m1022)
qed


subsection \<open>The reads\<close>

lemma getBytes_eq:
  "getBytes dv len off littleEndian =
     (if byteOffset dv + off + len \<le> length (buffer dv)
      then Inr (if \<not> littleEndian \<and> 1 < len then rev (stored_bytes dv off len)
                else stored_bytes dv off len)
      else Inl OutOfBounds)"
  by (auto simp: getBytes_def byteLength_def slice_def stored_bytes_def Let_def)

lemma length_stored_bytes:
  "byteOffset dv + off + n \<le> length (buffer dv) \<Longrightarrow> length (stored_bytes dv off n) = n"
  by (simp add: stored_bytes_def)

lemma list4: "length xs = 4 \<Longrightarrow> xs = [xs ! 0, xs ! 1, xs ! 2, xs ! 3]"
  by (auto simp: numeral_eq_Suc length_Suc_conv)

lemma decode32:
  "length b = 4 \<Longrightarrow>
   (let sign = 1 - (2 * sint (drop_bit 7 (int32 (b ! 3))));
        exponent = sint ((push_bit 1 (int32 (b ! 3)) AND 0xff) OR drop_bit 7 (int32 (b ! 2)))
                     - 127;
        mantissa = sint (push_bit 16 (int32 (b ! 2) AND 0x7f) OR push_bit 8 (int32 (b ! 1))
                           OR int32 (b ! 0))
    in (if exponent = 128 then
              (if mantissa \<noteq> 0 then NaN else times_Infinity sign)
            else if exponent = - 127 then
              Num (of_int sign * of_int mantissa * pow2 (- 126 - 23))
            else
              Num (of_int sign * (1 + of_int mantissa * pow2 (- 23)) * pow2 exponent)))
   = binary32 (little_endian_word b)"
proof -
  assume len: "length b = 4"
  define w :: "32 word" where "w = little_endian_word [b ! 0, b ! 1, b ! 2, b ! 3]"
  have bw: "little_endian_word b = w"
    unfolding w_def using list4 [OF len] by simp
  have e: "unat (take_bit 8 (drop_bit 23 w)) < 256"
    using unat_take_bit_lt [of 8 "drop_bit 23 w"] by simp
  have s: "bit w 31 = bit (b ! 3) 7"
    unfolding w_def bit_lew4 by simp
  show ?thesis
    unfolding bw binary32_def sign_byte s [symmetric]
    unfolding exponent32 [of "b ! 3" "b ! 2" "b ! 0" "b ! 1"]
      mantissa32 [of "b ! 2" "b ! 1" "b ! 0" "b ! 3"] w_def [symmetric]
    by (rule ieee32_arith [OF e])
qed

lemma getFloat32_eq:
  "getFloat32 dv off littleEndian =
     (if byteOffset dv + off + 4 \<le> length (buffer dv)
      then Inr (binary32 (stored_word littleEndian (stored_bytes dv off 4)))
      else Inl OutOfBounds)"
proof (cases "byteOffset dv + off + 4 \<le> length (buffer dv)")
  case False
  then show ?thesis by (simp add: getFloat32_def getBytes_eq)
next
  case True
  define b where "b = (if littleEndian then stored_bytes dv off 4 else rev (stored_bytes dv off 4))"
  have len: "length b = 4" using True by (simp add: b_def length_stored_bytes)
  have g: "getBytes dv 4 off littleEndian = Inr b"
    using True by (simp add: getBytes_eq b_def)
  have s: "stored_word littleEndian (stored_bytes dv off 4) = (little_endian_word b :: 32 word)"
    by (simp add: stored_word_def b_def)
  have "getFloat32 dv off littleEndian = Inr (binary32 (little_endian_word b))"
    by (simp only: getFloat32_def g sum.case Let_def decode32 [OF len, unfolded Let_def])
  then show ?thesis using True by (simp only: s if_True)
qed


lemma list8:
  "length xs = 8 \<Longrightarrow> xs = [xs ! 0, xs ! 1, xs ! 2, xs ! 3, xs ! 4, xs ! 5, xs ! 6, xs ! 7]"
  by (auto simp: numeral_eq_Suc length_Suc_conv)

lemma decode64:
  "length b = 8 \<Longrightarrow>
   (let sign = 1 - (2 * sint (drop_bit 7 (int32 (b ! 7))));
        exponent = sint (push_bit 3 (push_bit 1 (int32 (b ! 7)) AND 0xff)
                           OR drop_bit 4 (int32 (b ! 6)))
                     - (sint (push_bit 10 (1 :: 32 word)) - 1);
        mantissa = (sint (int32 (b ! 6) AND 0x0f) * 2 ^ 48) + (uint (b ! 5) * 2 ^ 40)
                     + (uint (b ! 4) * 2 ^ 32) + (uint (b ! 3) * 2 ^ 24)
                     + (uint (b ! 2) * 2 ^ 16) + (uint (b ! 1) * 2 ^ 8) + uint (b ! 0)
    in (if exponent = 1024 then
              (if mantissa \<noteq> 0 then NaN else times_Infinity sign)
            else if exponent = - 1023 then
              Num (of_int sign * of_int mantissa * pow2 (- 1022 - 52))
            else
              Num (of_int sign * (1 + of_int mantissa * pow2 (- 52)) * pow2 exponent)))
   = binary64 (little_endian_word b)"
proof -
  assume len: "length b = 8"
  define w :: "64 word" where
    "w = little_endian_word [b ! 0, b ! 1, b ! 2, b ! 3, b ! 4, b ! 5, b ! 6, b ! 7]"
  have bw: "little_endian_word b = w"
    unfolding w_def using list8 [OF len] by simp
  have e: "unat (take_bit 11 (drop_bit 52 w)) < 2048"
    using unat_take_bit_lt [of 11 "drop_bit 52 w"] by simp
  have s: "bit w 63 = bit (b ! 7) 7"
    unfolding w_def bit_lew8 by simp
  show ?thesis
    unfolding bw binary64_def sign_byte s [symmetric]
    unfolding exponent64 [of "b ! 7" "b ! 6" "b ! 0" "b ! 1" "b ! 2" "b ! 3" "b ! 4" "b ! 5"]
      mantissa64 [of "b ! 6" "b ! 5" "b ! 4" "b ! 3" "b ! 2" "b ! 1" "b ! 0" "b ! 7"]
      w_def [symmetric]
    by (rule ieee64_arith [OF e])
qed

lemma getFloat64_eq:
  "getFloat64 dv off littleEndian =
     (if byteOffset dv + off + 8 \<le> length (buffer dv)
      then Inr (binary64 (stored_word littleEndian (stored_bytes dv off 8)))
      else Inl OutOfBounds)"
proof (cases "byteOffset dv + off + 8 \<le> length (buffer dv)")
  case False
  then show ?thesis by (simp add: getFloat64_def getBytes_eq)
next
  case True
  define b where "b = (if littleEndian then stored_bytes dv off 8 else rev (stored_bytes dv off 8))"
  have len: "length b = 8" using True by (simp add: b_def length_stored_bytes)
  have g: "getBytes dv 8 off littleEndian = Inr b"
    using True by (simp add: getBytes_eq b_def)
  have s: "stored_word littleEndian (stored_bytes dv off 8) = (little_endian_word b :: 64 word)"
    by (simp add: stored_word_def b_def)
  have "getFloat64 dv off littleEndian = Inr (binary64 (little_endian_word b))"
    by (simp only: getFloat64_def g sum.case Let_def decode64 [OF len, unfolded Let_def])
  then show ?thesis using True by (simp only: s if_True)
qed

section \<open>STL: the binary decoder\<close>

lemma bind_Inr [simp]: "bind (Inr v) f = f v"
  by (simp add: bind_def)

lemma bind_Inl [simp]: "bind (Inl e) f = Inl e"
  by (simp add: bind_def)

lemma bind_eq_Inr: "bind m f = Inr r \<longleftrightarrow> (\<exists>v. m = Inr v \<and> f v = Inr r)"
  by (cases m) simp_all

lemma getFloat32_Inr:
  "getFloat32 dv off le = Inr x \<Longrightarrow> byteOffset dv + off + 4 \<le> length (buffer dv)"
  by (simp add: getFloat32_eq split: if_splits)

subsection \<open>The loop over the vertices of a face\<close>

lemma nine_updates:
  fixes xs :: "'a list" and r g b :: 'a
  assumes "offset + 9 \<le> length xs"
  defines "ys \<equiv> xs[offset := r, offset + 1 := g, offset + 2 := b,
                    offset + 3 := r, offset + 3 + 1 := g, offset + 3 + 2 := b,
                    offset + 3 + 3 := r, offset + 3 + 3 + 1 := g, offset + 3 + 3 + 2 := b]"
  shows "length ys = length xs"
    and "v < 3 \<Longrightarrow> ys ! (offset + 3 * v) = r \<and> ys ! (offset + 3 * v + 1) = g \<and> ys ! (offset + 3 * v + 2) = b"
    and "j < offset \<or> offset + 9 \<le> j \<Longrightarrow> ys ! j = xs ! j"
proof -
  show "length ys = length xs" by (simp add: ys_def)
  show "j < offset \<or> offset + 9 \<le> j \<Longrightarrow> ys ! j = xs ! j"
    by (auto simp: ys_def)
  assume "v < 3"
  then consider "v = 0" | "v = 1" | "v = 2" by linarith
  then show "ys ! (offset + 3 * v) = r \<and> ys ! (offset + 3 * v + 1) = g \<and> ys ! (offset + 3 * v + 2) = b"
    using assms(1) by cases (simp_all add: ys_def nth_list_update)
qed

lemma parseBinary_vertices_result:
  assumes "parseBinary_vertices reader colored start (nx, ny, nz) (r, g, b) 1 offset arrays
             = Inr (offset', arrays')"
  shows "offset' = offset + 9"
    and "length (stl_vertices arrays') = length (stl_vertices arrays)"
    and "length (stl_normals arrays') = length (stl_normals arrays)"
    and "stl_face_colors arrays' =
           (if colored then
              (stl_face_colors arrays)[offset := stored r, offset + 1 := stored g, offset + 2 := stored b,
                    offset + 3 := stored r, offset + 3 + 1 := stored g, offset + 3 + 2 := stored b,
                    offset + 3 + 3 := stored r, offset + 3 + 3 + 1 := stored g,
                    offset + 3 + 3 + 2 := stored b]
            else stl_face_colors arrays)"
    and "byteOffset reader + start + 48 \<le> length (buffer reader)"
proof -
  have u: "parseBinary_vertices reader c start (nx, ny, nz) (r, g, b) (Suc (Suc (Suc (Suc 0)))) o4 a4
             = Inr (o4, a4)"
    for o4 a4 c
    by (subst parseBinary_vertices.simps) simp
  from assms obtain x1 y1 z1 x2 y2 z2 x3 y3 z3 where
    last: "getFloat32 reader (start + 3 * 12 + 8) True = Inr z3" and
    res: "(offset', arrays') = (offset + 3 + 3 + 3,
      \<lparr>stl_vertices = (stl_vertices arrays)
           [offset := toFloat32 x1, offset + 1 := toFloat32 y1, offset + 2 := toFloat32 z1,
            offset + 3 := toFloat32 x2, offset + 3 + 1 := toFloat32 y2,
            offset + 3 + 2 := toFloat32 z2,
            offset + 3 + 3 := toFloat32 x3, offset + 3 + 3 + 1 := toFloat32 y3,
            offset + 3 + 3 + 2 := toFloat32 z3],
       stl_normals = (stl_normals arrays)
           [offset := toFloat32 nx, offset + 1 := toFloat32 ny, offset + 2 := toFloat32 nz,
            offset + 3 := toFloat32 nx, offset + 3 + 1 := toFloat32 ny,
            offset + 3 + 2 := toFloat32 nz,
            offset + 3 + 3 := toFloat32 nx, offset + 3 + 3 + 1 := toFloat32 ny,
            offset + 3 + 3 + 2 := toFloat32 nz],
       stl_face_colors =
         (if colored then
            (stl_face_colors arrays)[offset := stored r, offset + 1 := stored g, offset + 2 := stored b,
                    offset + 3 := stored r, offset + 3 + 1 := stored g, offset + 3 + 2 := stored b,
                    offset + 3 + 3 := stored r, offset + 3 + 3 + 1 := stored g,
                    offset + 3 + 3 + 2 := stored b]
          else stl_face_colors arrays)\<rparr>)"
    apply (subst (asm) parseBinary_vertices.simps)
    apply (simp add: bind_eq_Inr Let_def)
    apply (subst (asm) parseBinary_vertices.simps)
    apply (simp add: bind_eq_Inr Let_def)
    apply (subst (asm) parseBinary_vertices.simps)
    apply (simp add: bind_eq_Inr Let_def u)
    apply (cases colored)
     apply auto
    done
  from res show "offset' = offset + 9" by simp
  from res show "length (stl_vertices arrays') = length (stl_vertices arrays)" by simp
  from res show "length (stl_normals arrays') = length (stl_normals arrays)" by simp
  from res show "stl_face_colors arrays' =
           (if colored then
              (stl_face_colors arrays)[offset := stored r, offset + 1 := stored g, offset + 2 := stored b,
                    offset + 3 := stored r, offset + 3 + 1 := stored g, offset + 3 + 2 := stored b,
                    offset + 3 + 3 := stored r, offset + 3 + 3 + 1 := stored g,
                    offset + 3 + 3 + 2 := stored b]
            else stl_face_colors arrays)" by simp
  from getFloat32_Inr [OF last] show "byteOffset reader + start + 48 \<le> length (buffer reader)"
    by simp
qed

lemma sint_le16:
  "sint (push_bit 8 (ucast (b1::byte)) OR ucast (b0::byte) :: 32 word) = int (le16 b0 b1)"
proof -
  let ?w = "little_endian_word [b0, b1] :: 32 word"
  have w: "push_bit 8 (ucast b1) OR ucast b0 = ?w"
    by (simp add: lew_Cons little_endian_word_def)
  have "unat ?w = little_endian_nat [b0, b1]"
    by (rule unat_little_endian_word) simp
  then have "int (unat ?w) = int (little_endian_nat [b0, b1])"
    by (simp only:)
  then have u: "uint ?w = int (le16 b0 b1)"
    by (simp add: little_endian_nat_def le16_def)
  have nb: "\<not> bit ?w 31"
    by (simp add: bit_little_endian_word)
  show ?thesis
    unfolding w using sint_eq_uint32 [OF nb] u by simp
qed

lemma getUint16_le_eq:
  "getUint16 dv off True =
     (let p = byteOffset dv + off in
      if p + 2 \<le> length (buffer dv)
      then Inr (int (le16 (buffer dv ! p) (buffer dv ! (p + 1))))
      else Inl OutOfBounds)"
  by (auto simp: getUint16_def getBytes_le Let_def sint_le16)

subsection \<open>The loop over the faces\<close>

lemma parseBinary_faces_result:
  assumes "parseBinary_faces reader st n face offset arrays = Inr arrays'"
    and "byteOffset reader = 0" and "offset = 9 * face"
    and "length (stl_face_colors arrays) = 9 * n"
  shows "length (stl_vertices arrays') = length (stl_vertices arrays)
       \<and> length (stl_normals arrays') = length (stl_normals arrays)
       \<and> length (stl_face_colors arrays') = 9 * n
       \<and> (\<forall>j < 9 * face. stl_face_colors arrays' ! j = stl_face_colors arrays ! j)
       \<and> (hasColors st \<longrightarrow> (\<forall>f v. face \<le> f \<and> f < n \<and> v < 3 \<longrightarrow>
             (case faceColor st (packedColorAt (buffer reader) f) of (r, g, b) \<Rightarrow>
                stl_face_colors arrays' ! (9 * f + 3 * v) = stored r
              \<and> stl_face_colors arrays' ! (9 * f + 3 * v + 1) = stored g
              \<and> stl_face_colors arrays' ! (9 * f + 3 * v + 2) = stored b)))
       \<and> (face < n \<longrightarrow> 82 + 50 * n \<le> length (buffer reader))"
  using assms
proof (induction k \<equiv> "n - face" arbitrary: face offset arrays)
  case 0
  then have "\<not> face < n" by simp
  with "0.prems"(1) have "arrays' = arrays"
    by (subst (asm) parseBinary_faces.simps) simp
  with \<open>\<not> face < n\<close> "0.prems" show ?case by auto
next
  case (Suc k)
  then have lt: "face < n" by simp
  let ?start = "84 + face * 50"
  from Suc.prems(1) lt obtain nx ny nz rgb off1 arrays1 where
    rgb: "(if hasColors st then
             bind (getUint16 reader (?start + 48) True) (\<lambda>packedColor. Inr (faceColor st packedColor))
           else Inr (None, None, None)) = Inr rgb" and
    vs: "parseBinary_vertices reader (hasColors st) ?start (nx, ny, nz) rgb 1 offset arrays
           = Inr (off1, arrays1)" and
    rest: "parseBinary_faces reader st n (face + 1) off1 arrays1 = Inr arrays'"
    by (subst (asm) parseBinary_faces.simps)
       (auto simp: bind_eq_Inr Let_def simp del: One_nat_def)
  obtain r g b where rgb3: "rgb = (r, g, b)" by (cases rgb)
  note vr = parseBinary_vertices_result [OF vs [unfolded rgb3]]
  have off1: "off1 = 9 * (face + 1)" using vr(1) Suc.prems(3) by simp
  have len1: "length (stl_face_colors arrays1) = 9 * n"
    using vr(4) Suc.prems(4) by (simp split: if_splits)
  have k: "k = n - (face + 1)" using Suc.hyps(2) by simp
  note ih = Suc.hyps(1) [OF k rest Suc.prems(2) off1 len1]
  have fit: "offset + 9 \<le> length (stl_face_colors arrays)"
    using lt Suc.prems(3,4) by simp
  have bound: "82 + 50 * n \<le> length (buffer reader)"
  proof (cases "face + 1 < n")
    case True
    with ih show ?thesis by simp
  next
    case False
    with lt have "n = face + 1" by simp
    with vr(5) Suc.prems(2) show ?thesis by simp
  qed
  have below: "\<forall>j < 9 * face. stl_face_colors arrays' ! j = stl_face_colors arrays ! j"
  proof (intro allI impI)
    fix j assume j: "j < 9 * face"
    then have "stl_face_colors arrays' ! j = stl_face_colors arrays1 ! j" using ih by simp
    also have "\<dots> = stl_face_colors arrays ! j"
      using j Suc.prems(3) nine_updates(3) [OF fit, of j] vr(4) by (simp split: if_splits)
    finally show "stl_face_colors arrays' ! j = stl_face_colors arrays ! j" .
  qed
  have colored: "\<forall>f v. face \<le> f \<and> f < n \<and> v < 3 \<longrightarrow>
             (case faceColor st (packedColorAt (buffer reader) f) of (r, g, b) \<Rightarrow>
                stl_face_colors arrays' ! (9 * f + 3 * v) = stored r
              \<and> stl_face_colors arrays' ! (9 * f + 3 * v + 1) = stored g
              \<and> stl_face_colors arrays' ! (9 * f + 3 * v + 2) = stored b)"
    if hc: "hasColors st"
  proof (intro allI impI)
    fix f v :: nat assume fv: "face \<le> f \<and> f < n \<and> v < 3"
    show "case faceColor st (packedColorAt (buffer reader) f) of (r, g, b) \<Rightarrow>
                stl_face_colors arrays' ! (9 * f + 3 * v) = stored r
              \<and> stl_face_colors arrays' ! (9 * f + 3 * v + 1) = stored g
              \<and> stl_face_colors arrays' ! (9 * f + 3 * v + 2) = stored b"
    proof (cases "f = face")
      case False
      with fv ih hc show ?thesis by simp
    next
      case True
      have p: "faceColor st (packedColorAt (buffer reader) face) = (r, g, b)"
        using rgb hc rgb3 Suc.prems(2)
        by (auto simp: bind_eq_Inr getUint16_le_eq Let_def packedColorAt_def mult.commute
            add.assoc split: if_splits)
      have c1: "stl_face_colors arrays1 =
          (stl_face_colors arrays)[offset := stored r, offset + 1 := stored g, offset + 2 := stored b,
                    offset + 3 := stored r, offset + 3 + 1 := stored g, offset + 3 + 2 := stored b,
                    offset + 3 + 3 := stored r, offset + 3 + 3 + 1 := stored g,
                    offset + 3 + 3 + 2 := stored b]"
        using vr(4) hc by simp
      have v3: "v < 3" using fv by simp
      have in1: "9 * face + 3 * v + 2 < 9 * (face + 1)" using v3 by simp
      have "stl_face_colors arrays' ! (9 * face + 3 * v) = stl_face_colors arrays1 ! (offset + 3 * v)"
        and "stl_face_colors arrays' ! (9 * face + 3 * v + 1) = stl_face_colors arrays1 ! (offset + 3 * v + 1)"
        and "stl_face_colors arrays' ! (9 * face + 3 * v + 2) = stl_face_colors arrays1 ! (offset + 3 * v + 2)"
        using ih in1 Suc.prems(3) by simp_all
      with nine_updates(2) [OF fit v3, of "stored r" "stored g" "stored b"] c1 True p
      show ?thesis by simp
    qed
  qed
  show ?case
    using vr(2,3) ih len1 Suc.prems(4) below colored bound by simp
qed


subsection \<open>The scan of the header\<close>

lemma take6:
  "k + 6 \<le> length xs \<Longrightarrow>
   take 6 (drop k xs) = [xs ! k, xs ! (k + 1), xs ! (k + 2), xs ! (k + 3), xs ! (k + 4), xs ! (k + 5)]"
proof (rule nth_equalityI)
  assume a: "k + 6 \<le> length xs"
  then show "length (take 6 (drop k xs))
      = length [xs ! k, xs ! (k + 1), xs ! (k + 2), xs ! (k + 3), xs ! (k + 4), xs ! (k + 5)]"
    by simp
  fix i assume "i < length (take 6 (drop k xs))"
  with a have "i < 6" by simp
  then consider "i = 0" | "i = 1" | "i = 2" | "i = 3" | "i = 4" | "i = 5" by linarith
  then show "take 6 (drop k xs) ! i
      = [xs ! k, xs ! (k + 1), xs ! (k + 2), xs ! (k + 3), xs ! (k + 4), xs ! (k + 5)] ! i"
    using a by cases simp_all
qed

lemma colorSignature_iff:
  "k + 6 \<le> length data \<Longrightarrow>
   colorSignature data k \<longleftrightarrow>
     data ! k = 0x43 \<and> data ! (k + 1) = 0x4F \<and> data ! (k + 2) = 0x4C \<and> data ! (k + 3) = 0x4F
       \<and> data ! (k + 4) = 0x52 \<and> data ! (k + 5) = 0x3D"
  by (simp add: colorSignature_def take6)

lemma getUint32_be_eq:
  "getUint32 dv off False =
     (let p = byteOffset dv + off in
      if p + 4 \<le> length (buffer dv)
      then Inr (int (le32 (buffer dv ! (p + 3)) (buffer dv ! (p + 2)) (buffer dv ! (p + 1))
                      (buffer dv ! p)))
      else Inl OutOfBounds)"
proof (cases "byteOffset dv + off + 4 \<le> length (buffer dv)")
  case False
  then show ?thesis by (simp add: getUint32_def getInt32_def getBytes_eq Let_def)
next
  case True
  let ?p = "byteOffset dv + off"
  have "stored_bytes dv off 4 = [buffer dv ! ?p, buffer dv ! (?p + 1), buffer dv ! (?p + 2), buffer dv ! (?p + 3)]"
    using True list4 [of "stored_bytes dv off 4"]
    by (simp add: length_stored_bytes) (simp add: stored_bytes_def)
  with True show ?thesis
    by (simp add: getUint32_def getInt32_def getBytes_eq Let_def unat_cat32 [symmetric])
qed

lemma byte_eq_iff_unat: "(b::byte) = c \<longleftrightarrow> unat b = unat c"
  by (rule word_eq_iff_unsigned)

lemma digit256: "u < 256 \<Longrightarrow> u + 256 * x = k \<Longrightarrow> u = k mod 256 \<and> x = k div 256"
  for u x k :: nat
  by auto

lemma COLO_iff:
  "le32 c3 c2 c1 c0 = 0x434F4C4F \<longleftrightarrow> c0 = 0x43 \<and> c1 = 0x4F \<and> c2 = 0x4C \<and> c3 = 0x4F"
proof
  assume "c0 = 0x43 \<and> c1 = 0x4F \<and> c2 = 0x4C \<and> c3 = 0x4F"
  then show "le32 c3 c2 c1 c0 = 0x434F4C4F" by (simp add: le32_def)
next
  assume a: "le32 c3 c2 c1 c0 = 0x434F4C4F"
  then have "unat c3 + 256 * (unat c2 + 256 * (unat c1 + 256 * unat c0)) = 0x434F4C4F"
    by (simp add: le32_def)
  from digit256 [OF unat_byte_lt this]
  have d3: "unat c3 = 0x4F" and r3: "unat c2 + 256 * (unat c1 + 256 * unat c0) = 0x434F4C"
    by simp_all
  from digit256 [OF unat_byte_lt r3]
  have d2: "unat c2 = 0x4C" and r2: "unat c1 + 256 * unat c0 = 0x434F"
    by simp_all
  from digit256 [OF unat_byte_lt r2]
  have d1: "unat c1 = 0x4F" and d0: "unat c0 = 0x43"
    by simp_all
  from d0 d1 d2 d3 show "c0 = 0x43 \<and> c1 = 0x4F \<and> c2 = 0x4C \<and> c3 = 0x4F"
    by (simp add: byte_eq_iff_unat)
qed

lemma int_eq_numeral: "int n = numeral k \<longleftrightarrow> n = numeral k"
  by (metis of_nat_numeral of_nat_eq_iff)

lemma unat_eq_numeral_byte:
  "unat (b::byte) = 0x52 \<longleftrightarrow> b = 0x52" "unat (b::byte) = 0x3D \<longleftrightarrow> b = 0x3D"
  by (simp_all add: byte_eq_iff_unat)

lemma colorSignatureAt_eq:
  "k + 6 \<le> length data \<Longrightarrow>
   colorSignatureAt \<lparr>buffer = data, byteOffset = 0\<rparr> k = Inr (colorSignature data k)"
  by (auto simp: colorSignatureAt_def getUint32_be_eq getUint8_eq Let_def COLO_iff
      int_eq_numeral colorSignature_iff unat_eq_numeral_byte)


lemma byteOver255_eq:
  "pos < length data \<Longrightarrow>
   byteOver255 \<lparr>buffer = data, byteOffset = 0\<rparr> pos
     = Inr (Some (double (rat_of_nat (unat (data ! pos)) / 255)))"
  by (simp add: byteOver255_def getUint8_eq)

lemma parseBinary_header_step:
  assumes "80 \<le> length data" and "index < 70"
  shows "parseBinary_header \<lparr>buffer = data, byteOffset = 0\<rparr> n index st =
           parseBinary_header \<lparr>buffer = data, byteOffset = 0\<rparr> n (index + 1)
             (if colorSignature data index then coloredAt data n index else st)"
  using assms
  by (subst parseBinary_header.simps)
     (simp add: colorSignatureAt_eq byteOver255_eq coloredAt_def)

lemma parseBinary_header_result:
  assumes "80 \<le> length data"
  shows "\<exists>st'. parseBinary_header \<lparr>buffer = data, byteOffset = 0\<rparr> n index st = Inr st'
       \<and> ((st' = st \<and> (\<forall>k. index \<le> k \<and> k < 70 \<longrightarrow> \<not> colorSignature data k))
          \<or> (\<exists>k. index \<le> k \<and> k < 70 \<and> colorSignature data k
                \<and> (\<forall>j. k < j \<and> j < 70 \<longrightarrow> \<not> colorSignature data j)
                \<and> st' = coloredAt data n k))"
proof (induction m \<equiv> "70 - index" arbitrary: index st)
  case 0
  then have "\<not> index < 80 - 10" by simp
  then have "parseBinary_header \<lparr>buffer = data, byteOffset = 0\<rparr> n index st = Inr st"
    by (subst parseBinary_header.simps) simp
  with 0 show ?case by auto
next
  case (Suc m)
  then have lt: "index < 70" and m: "m = 70 - (index + 1)" by simp_all
  let ?st1 = "if colorSignature data index then coloredAt data n index else st"
  from Suc.hyps(1) [OF m, of ?st1] obtain st' where
    r: "parseBinary_header \<lparr>buffer = data, byteOffset = 0\<rparr> n (index + 1) ?st1 = Inr st'" and
    d: "(st' = ?st1 \<and> (\<forall>k. index + 1 \<le> k \<and> k < 70 \<longrightarrow> \<not> colorSignature data k))
          \<or> (\<exists>k. index + 1 \<le> k \<and> k < 70 \<and> colorSignature data k
                \<and> (\<forall>j. k < j \<and> j < 70 \<longrightarrow> \<not> colorSignature data j)
                \<and> st' = coloredAt data n k)"
    by blast
  have res: "parseBinary_header \<lparr>buffer = data, byteOffset = 0\<rparr> n index st = Inr st'"
    using parseBinary_header_step [OF assms lt] r by simp
  from d show ?case
  proof
    assume a: "st' = ?st1 \<and> (\<forall>k. index + 1 \<le> k \<and> k < 70 \<longrightarrow> \<not> colorSignature data k)"
    show ?thesis
    proof (cases "colorSignature data index")
      case True
      with a lt have "index \<le> index \<and> index < 70 \<and> colorSignature data index
                \<and> (\<forall>j. index < j \<and> j < 70 \<longrightarrow> \<not> colorSignature data j)
                \<and> st' = coloredAt data n index"
        by auto
      with res show ?thesis by blast
    next
      case False
      with a have "\<forall>k. index \<le> k \<and> k < 70 \<longrightarrow> \<not> colorSignature data k"
        by (metis Suc_eq_plus1 Suc_leI le_neq_implies_less)
      with a False res show ?thesis by auto
    qed
  next
    assume "\<exists>k. index + 1 \<le> k \<and> k < 70 \<and> colorSignature data k
                \<and> (\<forall>j. k < j \<and> j < 70 \<longrightarrow> \<not> colorSignature data j)
                \<and> st' = coloredAt data n k"
    then obtain k where k: "index + 1 \<le> k \<and> k < 70 \<and> colorSignature data k
                \<and> (\<forall>j. k < j \<and> j < 70 \<longrightarrow> \<not> colorSignature data j)
                \<and> st' = coloredAt data n k"
      by blast
    then have "index \<le> k" by simp
    with k res show ?thesis by blast
  qed
qed


subsection \<open>The decoder\<close>

lemma parseBinary_faces_lengths:
  assumes "parseBinary_faces reader st n face offset arrays = Inr arrays'"
    and "byteOffset reader = 0"
  shows "length (stl_vertices arrays') = length (stl_vertices arrays)
       \<and> length (stl_normals arrays') = length (stl_normals arrays)
       \<and> (face < n \<longrightarrow> 82 + 50 * n \<le> length (buffer reader))"
  using assms
proof (induction k \<equiv> "n - face" arbitrary: face offset arrays)
  case 0
  then have "\<not> face < n" by simp
  with "0.prems"(1) have "arrays' = arrays"
    by (subst (asm) parseBinary_faces.simps) simp
  with \<open>\<not> face < n\<close> show ?case by auto
next
  case (Suc k)
  then have lt: "face < n" by simp
  let ?start = "84 + face * 50"
  from Suc.prems(1) lt obtain nx ny nz rgb off1 arrays1 where
    vs: "parseBinary_vertices reader (hasColors st) ?start (nx, ny, nz) rgb 1 offset arrays
           = Inr (off1, arrays1)" and
    rest: "parseBinary_faces reader st n (face + 1) off1 arrays1 = Inr arrays'"
    by (subst (asm) parseBinary_faces.simps)
       (auto simp: bind_eq_Inr Let_def simp del: One_nat_def)
  obtain r g b where rgb3: "rgb = (r, g, b)" by (cases rgb)
  note vr = parseBinary_vertices_result [OF vs [unfolded rgb3]]
  have k: "k = n - (face + 1)" using Suc.hyps(2) by simp
  note ih = Suc.hyps(1) [OF k rest Suc.prems(2)]
  have bound: "82 + 50 * n \<le> length (buffer reader)"
  proof (cases "face + 1 < n")
    case True
    with ih show ?thesis by simp
  next
    case False
    with lt have "n = face + 1" by simp
    with vr(5) Suc.prems(2) show ?thesis by simp
  qed
  show ?case using vr(2,3) ih bound by simp
qed

lemma parseBinary_Inr:
  assumes "parseBinary data = Inr g"
  shows "84 \<le> length data"
    and "\<exists>st arrays.
           parseBinary_header \<lparr>buffer = data, byteOffset = 0\<rparr> (triangleCount data) 0
              \<lparr>hasColors = False, stl_colors = [], defaultR = None, defaultG = None,
               defaultB = None, alpha = None\<rparr> = Inr st
         \<and> parseBinary_faces \<lparr>buffer = data, byteOffset = 0\<rparr> st (triangleCount data) 0 0
              \<lparr>stl_vertices = Float32Array (triangleCount data * 3 * 3),
               stl_normals = Float32Array (triangleCount data * 3 * 3),
               stl_face_colors = stl_colors st\<rparr> = Inr arrays
         \<and> g = \<lparr>position = stl_vertices arrays, normal = stl_normals arrays,
                 color = (if hasColors st then Some (stl_face_colors arrays) else None),
                 geometry_hasColors = hasColors st,
                 geometry_alpha = (if hasColors st then alpha st else None)\<rparr>"
proof -
  from assms obtain n where n: "getUint32 \<lparr>buffer = data, byteOffset = 0\<rparr> 80 True = Inr n"
    by (auto simp: parseBinary_def bind_eq_Inr Let_def)
  then show len: "84 \<le> length data"
    by (simp add: getUint32_le_eq Let_def split: if_splits)
  with n have "nat n = triangleCount data"
    by (auto simp: getUint32_le_eq Let_def triangleCount_def)
  with assms n show "\<exists>st arrays.
           parseBinary_header \<lparr>buffer = data, byteOffset = 0\<rparr> (triangleCount data) 0
              \<lparr>hasColors = False, stl_colors = [], defaultR = None, defaultG = None,
               defaultB = None, alpha = None\<rparr> = Inr st
         \<and> parseBinary_faces \<lparr>buffer = data, byteOffset = 0\<rparr> st (triangleCount data) 0 0
              \<lparr>stl_vertices = Float32Array (triangleCount data * 3 * 3),
               stl_normals = Float32Array (triangleCount data * 3 * 3),
               stl_face_colors = stl_colors st\<rparr> = Inr arrays
         \<and> g = \<lparr>position = stl_vertices arrays, normal = stl_normals arrays,
                 color = (if hasColors st then Some (stl_face_colors arrays) else None),
                 geometry_hasColors = hasColors st,
                 geometry_alpha = (if hasColors st then alpha st else None)\<rparr>"
    by (auto simp: parseBinary_def bind_eq_Inr Let_def)
qed

text \<open>
  Claim C7, as the code has it. The count that drives the loop over the records is the
  little-endian unsigned 32-bit value of bytes 80 to 83, the four bytes after the 80-byte
  header. A decode that returns has read the count there, has filled nine positions and
  nine normal coordinates for each of that many triangles, and has found the vertices of
  the last of them inside the buffer.
\<close>

theorem parseBinary_triangle_count:
  "parseBinary data = Inr g \<Longrightarrow>
     84 \<le> length data
   \<and> length (position g) = 9 * triangleCount data
   \<and> length (normal g) = 9 * triangleCount data
   \<and> (0 < triangleCount data \<longrightarrow> 82 + 50 * triangleCount data \<le> length data)"
proof -
  assume a: "parseBinary data = Inr g"
  from parseBinary_Inr [OF a] obtain st arrays where
    len: "84 \<le> length data" and
    f: "parseBinary_faces \<lparr>buffer = data, byteOffset = 0\<rparr> st (triangleCount data) 0 0
              \<lparr>stl_vertices = Float32Array (triangleCount data * 3 * 3),
               stl_normals = Float32Array (triangleCount data * 3 * 3),
               stl_face_colors = stl_colors st\<rparr> = Inr arrays" and
    g: "g = \<lparr>position = stl_vertices arrays, normal = stl_normals arrays,
                 color = (if hasColors st then Some (stl_face_colors arrays) else None),
                 geometry_hasColors = hasColors st,
                 geometry_alpha = (if hasColors st then alpha st else None)\<rparr>"
    by blast
  from parseBinary_faces_lengths [OF f] len g show ?thesis
    by (simp add: Float32Array_def)
qed

theorem parseBinary_triangle_count_witness:
  "triangleCount stl_one_at_80 = 1 \<and> 132 \<le> length stl_one_at_80"
proof -
  have h: "parseBinary stl_one_at_80 =
     Inr \<lparr>position = replicate 9 (Num 0), normal = replicate 9 (Num 0), color = None,
          geometry_hasColors = False, geometry_alpha = None\<rparr>"
    by code_simp
  from parseBinary_triangle_count [OF h] show ?thesis by auto
qed

text \<open>
  The claim as written places the count in bytes 76 to 79. In this file of 84 bytes
  those bytes hold the value 1 and bytes 80 to 83 hold 0: no triangle is decoded.
\<close>

theorem parseBinary_count_at_76_counterexample:
  "parseBinary stl_one_at_76 =
     Inr \<lparr>position = [], normal = [], color = None,
          geometry_hasColors = False, geometry_alpha = None\<rparr>
   \<and> le32 (stl_one_at_76 ! 76) (stl_one_at_76 ! 77) (stl_one_at_76 ! 78) (stl_one_at_76 ! 79) = 1"
proof
  show "parseBinary stl_one_at_76 =
     Inr \<lparr>position = [], normal = [], color = None,
          geometry_hasColors = False, geometry_alpha = None\<rparr>"
    by code_simp
  show "le32 (stl_one_at_76 ! 76) (stl_one_at_76 ! 77) (stl_one_at_76 ! 78) (stl_one_at_76 ! 79) = 1"
    by (simp add: stl_one_at_76_def le32_def nth_append)
qed

text \<open>
  Claim C6. When the header has the signature \<open>COLOR=\<close> (the decode is marked as
  having colors), the color array has nine entries per triangle, and the three entries
  of each of the three vertices of a triangle are decided by the packed color \<open>p\<close> of
  its record: with bit 15 clear they are \<open>(p & 0x1F)/31\<close>,
  \<open>((p >> 5) & 0x1F)/31\<close> and \<open>((p >> 10) & 0x1F)/31\<close>; with bit 15 set they are
  the three bytes after the signature, each over 255. Each channel is the quotient as
  the program holds it (\<open>channel\<close>): divided in double precision and kept in a
  \<open>Float32Array\<close>, that is, rounded to single precision. When the header has the
  signature more than once, the last one within its first 70 offsets counts.
\<close>

theorem parseBinary_face_color:
  assumes "parseBinary data = Inr g" and "geometry_hasColors g"
    and "face < triangleCount data" and "v < 3"
  shows "\<exists>cs k. color g = Some cs \<and> length cs = 9 * triangleCount data
      \<and> k < 70 \<and> colorSignature data k \<and> (\<forall>j. k < j \<and> j < 70 \<longrightarrow> \<not> colorSignature data j)
      \<and> (let p = packedColorAt data face; i = 9 * face + 3 * v in
           if p AND 0x8000 = 0 then
               cs ! i = channel (p AND 0x1F) 31
             \<and> cs ! (i + 1) = channel (drop_bit 5 p AND 0x1F) 31
             \<and> cs ! (i + 2) = channel (drop_bit 10 p AND 0x1F) 31
           else
               cs ! i = channel (uint (data ! (k + 6))) 255
             \<and> cs ! (i + 1) = channel (uint (data ! (k + 7))) 255
             \<and> cs ! (i + 2) = channel (uint (data ! (k + 8))) 255)"
proof -
  let ?reader = "\<lparr>buffer = data, byteOffset = 0\<rparr>"
  let ?n = "triangleCount data"
  from parseBinary_Inr [OF assms(1)] obtain st arrays where
    len: "84 \<le> length data" and
    h: "parseBinary_header ?reader ?n 0
              \<lparr>hasColors = False, stl_colors = [], defaultR = None, defaultG = None,
               defaultB = None, alpha = None\<rparr> = Inr st" and
    f: "parseBinary_faces ?reader st ?n 0 0
              \<lparr>stl_vertices = Float32Array (?n * 3 * 3),
               stl_normals = Float32Array (?n * 3 * 3),
               stl_face_colors = stl_colors st\<rparr> = Inr arrays" and
    g: "g = \<lparr>position = stl_vertices arrays, normal = stl_normals arrays,
                 color = (if hasColors st then Some (stl_face_colors arrays) else None),
                 geometry_hasColors = hasColors st,
                 geometry_alpha = (if hasColors st then alpha st else None)\<rparr>"
    by blast
  from assms(2) g have hc: "hasColors st" by simp
  from len have "80 \<le> length data" by simp
  from parseBinary_header_result [OF this, of ?n 0
      "\<lparr>hasColors = False, stl_colors = [], defaultR = None, defaultG = None,
               defaultB = None, alpha = None\<rparr>"] h hc
  obtain k where k: "k < 70" "colorSignature data k"
      "\<forall>j. k < j \<and> j < 70 \<longrightarrow> \<not> colorSignature data j" and st: "st = coloredAt data ?n k"
    by auto
  have l0: "length (stl_face_colors \<lparr>stl_vertices = Float32Array (?n * 3 * 3),
               stl_normals = Float32Array (?n * 3 * 3),
               stl_face_colors = stl_colors st\<rparr>) = 9 * ?n"
    by (simp add: st coloredAt_def Float32Array_def)
  note fr = parseBinary_faces_result [OF f _ _ l0, simplified]
  from fr hc assms(3,4) have
    c: "case faceColor st (packedColorAt data face) of (r, g, b) \<Rightarrow>
                stl_face_colors arrays ! (9 * face + 3 * v) = stored r
              \<and> stl_face_colors arrays ! (9 * face + 3 * v + 1) = stored g
              \<and> stl_face_colors arrays ! (9 * face + 3 * v + 2) = stored b"
    by simp
  have u: "rat_of_nat (unat b) = rat_of_int (uint b)" for b :: byte
    by (simp only: uint_nat of_int_of_nat_eq)
  have "let p = packedColorAt data face; i = 9 * face + 3 * v in
           if p AND 0x8000 = 0 then
               stl_face_colors arrays ! i = channel (p AND 0x1F) 31
             \<and> stl_face_colors arrays ! (i + 1) = channel (drop_bit 5 p AND 0x1F) 31
             \<and> stl_face_colors arrays ! (i + 2) = channel (drop_bit 10 p AND 0x1F) 31
           else
               stl_face_colors arrays ! i = channel (uint (data ! (k + 6))) 255
             \<and> stl_face_colors arrays ! (i + 1) = channel (uint (data ! (k + 7))) 255
             \<and> stl_face_colors arrays ! (i + 2) = channel (uint (data ! (k + 8))) 255"
    using c unfolding faceColor_def st coloredAt_def Let_def
    by (cases "packedColorAt data face AND 0x8000 = 0") (simp_all add: stored_def channel_def u)
  moreover have "color g = Some (stl_face_colors arrays)" using g hc by simp
  moreover have "length (stl_face_colors arrays) = 9 * ?n" using fr by simp
  ultimately show ?thesis using k by blast
qed

text \<open>
  The example of the specification: the default color 255, 0, 0 and a triangle whose
  packed color has bit 15 set give the color (1, 0, 0) to its three vertices.
\<close>

theorem parseBinary_face_color_witness:
  "parseBinary stl_red_triangle =
     Inr \<lparr>position = [Num 1, Num 0, Num 0, Num 0, Num 0, Num 0, Num 0, Num 0, Num 0],
          normal = replicate 9 (Num 0),
          color = Some [Num 1, Num 0, Num 0, Num 1, Num 0, Num 0, Num 1, Num 0, Num 0],
          geometry_hasColors = True, geometry_alpha = Some (Num 1)\<rparr>
   \<and> (\<exists>cs k. Some [Num 1, Num 0, Num 0, Num 1, Num 0, Num 0, Num 1, Num 0, Num 0] = Some cs
         \<and> length cs = 9 * triangleCount stl_red_triangle
         \<and> k < 70 \<and> colorSignature stl_red_triangle k
         \<and> packedColorAt stl_red_triangle 0 AND 0x8000 \<noteq> 0
         \<and> cs ! 6 = channel (uint (stl_red_triangle ! (k + 6))) 255
         \<and> cs ! 7 = channel (uint (stl_red_triangle ! (k + 7))) 255
         \<and> cs ! 8 = channel (uint (stl_red_triangle ! (k + 8))) 255)"
proof -
  have h: "parseBinary stl_red_triangle =
     Inr \<lparr>position = [Num 1, Num 0, Num 0, Num 0, Num 0, Num 0, Num 0, Num 0, Num 0],
          normal = replicate 9 (Num 0),
          color = Some [Num 1, Num 0, Num 0, Num 1, Num 0, Num 0, Num 1, Num 0, Num 0],
          geometry_hasColors = True, geometry_alpha = Some (Num 1)\<rparr>"
    by code_simp
  have tc: "0 < triangleCount stl_red_triangle"
    by (simp add: triangleCount_def le32_def stl_red_triangle_def nth_append)
  have p: "packedColorAt stl_red_triangle 0 = 0x8000"
    by (simp add: packedColorAt_def le16_def stl_red_triangle_def nth_append)
  have b: "(0x8000 :: int) AND 0x8000 \<noteq> 0"
    by simp
  from parseBinary_face_color [OF h _ tc, of 2] h p b show ?thesis
    by (auto simp: Let_def)
qed

text \<open>
  Rounding at work. The field 1 over 31 is held as the single-precision number nearest
  to it, and the decode of the second example file shows it next to the fields 0 and 31.
  For each of the 32 values of a field the channel is the single-precision number nearest
  to the exact quotient: rounding twice loses nothing.
\<close>

lemma channel_1_31: "channel 1 31 = Num (1082401 / 33554432)"
  by code_simp

lemma parseBinary_packed_triangle:
  "parseBinary stl_packed_triangle =
     Inr \<lparr>position = [Num 1, Num 0, Num 0, Num 0, Num 0, Num 0, Num 0, Num 0, Num 0],
          normal = replicate 9 (Num 0),
          color = Some [Num (1082401 / 33554432), Num 0, Num 1,
                        Num (1082401 / 33554432), Num 0, Num 1,
                        Num (1082401 / 33554432), Num 0, Num 1],
          geometry_hasColors = True, geometry_alpha = Some (Num 1)\<rparr>"
  by code_simp

lemma channel_31_nearest:
  "\<forall>k\<in>set [0..31]. channel k 31 = fround (rat_of_int k / 31)"
  by code_simp
section \<open>The fallback view: float reads on each kind of buffer\<close>

text \<open>
  On an array of byte values the fallback reads the bytes themselves, and its 32-bit
  float read is the one above: the binary32 value of the stored bytes.
\<close>

lemma ToInt32_ByteCell: "ToInt32 (ByteCell v) = int32 v"
  by (simp add: ToInt32_def cellNumber_def int32_def)

lemma fallback_getBytes_ByteArray:
  "fallback_getBytes (new_DataView (ByteArray (buffer dv)) (Some (byteOffset dv)) None)
       len off littleEndian
     = (case getBytes dv len off littleEndian of
          Inl e \<Rightarrow> Inl e
        | Inr b \<Rightarrow> Inr (ArrayOf (map ByteCell b)))"
  by (simp add: fallback_getBytes_def getBytes_def new_DataView_def or_else_def buffer_byteLength_def
      buffer_length_def isString_def buffer_slice_def reversed_def byteLength_def Let_def rev_map)

lemma length_getBytes: "getBytes dv len off littleEndian = Inr b \<Longrightarrow> length b = len"
  by (auto simp: getBytes_def Let_def slice_def byteLength_def split: if_splits)

lemma cell_at_ByteArray: "i < length b \<Longrightarrow> cell_at (ArrayOf (map ByteCell b)) i = ByteCell (b ! i)"
  by (simp add: cell_at_def)

lemma fallback_getFloat32_ByteArray:
  "fallback_getFloat32 (new_DataView (ByteArray (buffer dv)) (Some (byteOffset dv)) None)
       off littleEndian
     = getFloat32 dv off littleEndian"
proof (cases "getBytes dv 4 off littleEndian")
  case (Inl e)
  then show ?thesis
    by (simp add: fallback_getFloat32_def getFloat32_def fallback_getBytes_ByteArray)
next
  case (Inr b)
  from length_getBytes [OF Inr] have "length b = 4" .
  then show ?thesis
    by (simp add: fallback_getFloat32_def getFloat32_def fallback_getBytes_ByteArray Inr
        cell_at_ByteArray ToInt32_ByteCell)
qed

lemma fallback_getFloat32_ByteArray_ieee754:
  "fallback_getFloat32 (new_DataView (ByteArray (buffer dv)) (Some (byteOffset dv)) None)
       off littleEndian
     = (if byteOffset dv + off + 4 \<le> length (buffer dv)
        then Inr (binary32 (stored_word littleEndian (stored_bytes dv off 4)))
        else Inl OutOfBounds)"
  by (simp only: fallback_getFloat32_ByteArray getFloat32_eq)

text \<open>
  Claim C8. The fallback view over a string buffer does not return the value its bytes
  encode. The string of the four bytes of 1 in binary32 reads as 0, and the string of
  the eight bytes of 1 in binary64 reads as \<open>NaN\<close>: \<open>_getBytes\<close> tests \<open>isString\<close>,
  the constructor sets \<open>_isString\<close>, so the characters are never converted to their
  codes, and the arithmetic of the read meets strings of one character. The same reads
  over an \<open>ArrayBuffer\<close> of those bytes, whose slice has no elements, answer 0 and
  \<open>NaN\<close> as well. Over an array of the same byte values both reads answer 1, the value
  that the bytes encode.
\<close>

theorem fallback_getFloat_string_buffer:
  "fallback_getFloat32 (new_DataView (BinaryString one_binary32_string) None None) 0 True
     = Inr (Num 0)
   \<and> fallback_getFloat32 (new_DataView (ArrayBuffer one_binary32) None None) 0 True = Inr (Num 0)
   \<and> fallback_getFloat32 (new_DataView (ByteArray one_binary32) None None) 0 True = Inr (Num 1)
   \<and> binary32 (stored_word True one_binary32) = Num 1
   \<and> fallback_getFloat64 (new_DataView (BinaryString one_binary64_string) None None) 0 True
     = Inr NaN
   \<and> fallback_getFloat64 (new_DataView (ArrayBuffer one_binary64) None None) 0 True = Inr NaN
   \<and> fallback_getFloat64 (new_DataView (ByteArray one_binary64) None None) 0 True = Inr (Num 1)
   \<and> binary64 (stored_word True one_binary64) = Num 1"
  by code_simp


end
